theory Spec2Isabelle
  imports Main "HOL-Library.Word" "HOL-Library.List_Lexorder" "HOL-Library.Multiset"
begin

unbundle bit_operations_syntax

section \<open>The parser worker of LinkedinWrapped (src/workers/parser.worker.ts)\<close>

text \<open>
  The worker turns the files of a LinkedIn export into five record lists and a summary.
  This theory embeds the current worker (the second version in the source file, the one
  with \<open>stableHash\<close>) function by function, and the rolling hash \<open>simpleHash\<close> of the
  earlier version.

  What the worker takes from its platform is kept apart from the code of the repository:
  \<^item> \<open>String.prototype.toLowerCase\<close> and the engine's date parser are fields of a
    \<open>host\<close> record, so that every theorem holds for every engine;
  \<^item> the tokenisers (PapaParse, SheetJS, JSZip) are not modelled: a blob is given by what
    they return on it;
  \<^item> SHA-1, UTF-8 encoding, \<open>Date.prototype.toISOString\<close>, \<open>trim\<close>, \<open>split\<close>,
    \<open>join\<close>, \<open>sort\<close> and the regular expressions of the source are fixed by their
    standards and written out.
\<close>

subsection \<open>JavaScript strings\<close>

text \<open>A JavaScript string is a sequence of UTF-16 code units.\<close>

type_synonym jsstring = "16 word list"

text \<open>String literals of the source, written as Isabelle strings.\<close>

definition js :: "string \<Rightarrow> jsstring" where
  "js s = map (\<lambda>c. of_nat (of_char c)) s"

definition startsWith :: "jsstring \<Rightarrow> jsstring \<Rightarrow> bool" where
  "startsWith s p = (take (length p) s = p)"

definition endsWith :: "jsstring \<Rightarrow> jsstring \<Rightarrow> bool" where
  "endsWith s p = (length p \<le> length s \<and> drop (length s - length p) s = p)"

fun includes_js :: "jsstring \<Rightarrow> jsstring \<Rightarrow> bool" where
  "includes_js [] p = (p = [])"
| "includes_js (c # cs) p = (startsWith (c # cs) p \<or> includes_js cs p)"

text \<open>\<open>s.split(sep)\<close> for a separator of one code unit; the result is never empty.\<close>

fun split :: "16 word \<Rightarrow> jsstring \<Rightarrow> jsstring list" where
  "split sep [] = [[]]"
| "split sep (c # cs) =
     (if c = sep then [] # split sep cs
      else (case split sep cs of p # ps \<Rightarrow> (c # p) # ps | [] \<Rightarrow> [[c]]))"

fun join :: "jsstring \<Rightarrow> jsstring list \<Rightarrow> jsstring" where
  "join sep [] = []"
| "join sep [x] = x"
| "join sep (x # y # ys) = x @ sep @ join sep (y # ys)"

text \<open>A number inside a template string: its decimal digits.\<close>

fun showNat :: "nat \<Rightarrow> jsstring" where
  "showNat n =
     (if n < 10 then [0x30 + of_nat n] else showNat (n div 10) @ [0x30 + of_nat (n mod 10)])"

text \<open>
  The regular expressions of the source carry the flag \<open>i\<close> and no flag \<open>u\<close>, and their
  letters are ASCII: a code unit matches a letter of the pattern exactly when it is that
  letter in either ASCII case.
\<close>

definition asciiUpper :: "16 word \<Rightarrow> 16 word" where
  "asciiUpper c = (if 0x61 \<le> c \<and> c \<le> 0x7A then c - 0x20 else c)"

definition asciiLower :: "16 word \<Rightarrow> 16 word" where
  "asciiLower c = (if 0x41 \<le> c \<and> c \<le> 0x5A then c + 0x20 else c)"

text \<open>
  White space and line terminators of ECMAScript: the white-space class of a regular
  expression, and what \<open>trim\<close> removes.
\<close>

definition isWhiteSpace :: "16 word \<Rightarrow> bool" where
  "isWhiteSpace c =
     (c = 0x09 \<or> c = 0x0A \<or> c = 0x0B \<or> c = 0x0C \<or> c = 0x0D \<or> c = 0x20 \<or> c = 0xA0
      \<or> c = 0x1680 \<or> (0x2000 \<le> c \<and> c \<le> 0x200A) \<or> c = 0x2028 \<or> c = 0x2029
      \<or> c = 0x202F \<or> c = 0x205F \<or> c = 0x3000 \<or> c = 0xFEFF)"

definition trimEnd :: "jsstring \<Rightarrow> jsstring" where
  "trimEnd s = rev (dropWhile isWhiteSpace (rev s))"

definition trim :: "jsstring \<Rightarrow> jsstring" where
  "trim s = trimEnd (dropWhile isWhiteSpace s)"

subsection \<open>The host\<close>

text \<open>
  \<open>toLowerCase\<close> is the engine's Unicode lower-casing. \<open>dateParse\<close> is the engine's
  \<open>Date.parse\<close>: milliseconds since the epoch, \<open>None\<close> for \<open>NaN\<close>; outside the format of
  \<open>toISOString\<close> ECMAScript leaves its result to the implementation.
\<close>

record host =
  toLowerCase :: "jsstring \<Rightarrow> jsstring"
  dateParse :: "jsstring \<Rightarrow> int option"

text \<open>\<open>new Date(s)\<close>: the time value, \<open>None\<close> for an invalid date (\<open>TimeClip\<close>).\<close>

definition newDate :: "host \<Rightarrow> jsstring \<Rightarrow> int option" where
  "newDate h s =
     (case dateParse h s of
        None \<Rightarrow> None
      | Some t \<Rightarrow> if \<bar>t\<bar> \<le> 8640000000000000 then Some t else None)"

subsection \<open>stableHash and simpleHash\<close>

text \<open>\<open>new TextEncoder().encode\<close>: UTF-8, an unpaired surrogate becoming U+FFFD.\<close>

fun utf8 :: "jsstring \<Rightarrow> 8 word list" where
  "utf8 [] = []"
| "utf8 (c # cs) =
     (if c < 0x80 then ucast c # utf8 cs
      else if c < 0x800 then
        [0xC0 OR ucast (drop_bit 6 c), 0x80 OR ucast (c AND 0x3F)] @ utf8 cs
      else if 0xD800 \<le> c \<and> c < 0xDC00 then
        (case cs of
           d # ds \<Rightarrow>
             if 0xDC00 \<le> d \<and> d < 0xE000 then
               (let p = (0x10000 :: 32 word) + push_bit 10 (ucast (c AND 0x3FF))
                          + ucast (d AND 0x3FF)
                in [0xF0 OR ucast (drop_bit 18 p), 0x80 OR ucast (drop_bit 12 p AND 0x3F),
                    0x80 OR ucast (drop_bit 6 p AND 0x3F), 0x80 OR ucast (p AND 0x3F)]
                   @ utf8 ds)
             else [0xEF, 0xBF, 0xBD] @ utf8 cs
         | [] \<Rightarrow> [0xEF, 0xBF, 0xBD])
      else if 0xDC00 \<le> c \<and> c < 0xE000 then [0xEF, 0xBF, 0xBD] @ utf8 cs
      else [0xE0 OR ucast (drop_bit 12 c), 0x80 OR ucast (drop_bit 6 c AND 0x3F),
            0x80 OR ucast (c AND 0x3F)] @ utf8 cs)"

text \<open>SHA-1 (FIPS 180-4), what \<open>crypto.subtle.digest('SHA-1', data)\<close> computes.\<close>

definition sha1_pad :: "8 word list \<Rightarrow> 8 word list" where
  "sha1_pad m =
     (let n = length m; bits = (of_nat (8 * n) :: 64 word)
      in m @ [0x80] @ replicate ((119 - n mod 64) mod 64) 0
           @ map (\<lambda>i. ucast (drop_bit (8 * (7 - i)) bits)) [0..<8])"

fun be32 :: "8 word list \<Rightarrow> 32 word list" where
  "be32 (a # b # c # d # r) =
     (push_bit 24 (ucast a) OR push_bit 16 (ucast b) OR push_bit 8 (ucast c) OR ucast d)
     # be32 r"
| "be32 _ = []"

fun sha1_schedule :: "nat \<Rightarrow> 32 word list \<Rightarrow> 32 word list" where
  "sha1_schedule 0 w = w"
| "sha1_schedule (Suc k) w =
     (let n = length w
      in sha1_schedule k
           (w @ [word_rotl 1 (w ! (n - 3) XOR w ! (n - 8) XOR w ! (n - 14) XOR w ! (n - 16))]))"

type_synonym sha1_state = "32 word \<times> 32 word \<times> 32 word \<times> 32 word \<times> 32 word"

definition sha1_f :: "nat \<Rightarrow> 32 word \<Rightarrow> 32 word \<Rightarrow> 32 word \<Rightarrow> 32 word" where
  "sha1_f t b c d =
     (if t < 20 then (b AND c) OR (NOT b AND d)
      else if t < 40 then b XOR c XOR d
      else if t < 60 then (b AND c) OR (b AND d) OR (c AND d)
      else b XOR c XOR d)"

definition sha1_k :: "nat \<Rightarrow> 32 word" where
  "sha1_k t =
     (if t < 20 then 0x5A827999 else if t < 40 then 0x6ED9EBA1
      else if t < 60 then 0x8F1BBCDC else 0xCA62C1D6)"

fun sha1_rounds :: "nat \<Rightarrow> 32 word list \<Rightarrow> sha1_state \<Rightarrow> sha1_state" where
  "sha1_rounds t [] s = s"
| "sha1_rounds t (w # ws) (a, b, c, d, e) =
     sha1_rounds (Suc t) ws
       (word_rotl 5 a + sha1_f t b c d + e + sha1_k t + w, a, word_rotl 30 b, c, d)"

definition sha1_block :: "sha1_state \<Rightarrow> 8 word list \<Rightarrow> sha1_state" where
  "sha1_block s blk =
     (case (s, sha1_rounds 0 (sha1_schedule 64 (be32 blk)) s) of
        ((h0, h1, h2, h3, h4), (a, b, c, d, e)) \<Rightarrow>
          (h0 + a, h1 + b, h2 + c, h3 + d, h4 + e))"

fun sha1_blocks :: "nat \<Rightarrow> sha1_state \<Rightarrow> 8 word list \<Rightarrow> sha1_state" where
  "sha1_blocks 0 s m = s"
| "sha1_blocks (Suc k) s m = sha1_blocks k (sha1_block s (take 64 m)) (drop 64 m)"

definition bytes32 :: "32 word \<Rightarrow> 8 word list" where
  "bytes32 w = [ucast (drop_bit 24 w), ucast (drop_bit 16 w), ucast (drop_bit 8 w), ucast w]"

definition sha1 :: "8 word list \<Rightarrow> 8 word list" where
  "sha1 m =
     (let p = sha1_pad m
      in case sha1_blocks (length p div 64)
                (0x67452301, 0xEFCDAB89, 0x98BADCFE, 0x10325476, 0xC3D2E1F0) p of
           (h0, h1, h2, h3, h4) \<Rightarrow>
             bytes32 h0 @ bytes32 h1 @ bytes32 h2 @ bytes32 h3 @ bytes32 h4)"

text \<open>One nibble as a lower-case hexadecimal digit (\<open>toString(16)\<close>).\<close>

definition hexDigit :: "8 word \<Rightarrow> 16 word" where
  "hexDigit n = (if n < 10 then 0x30 + ucast n else 0x57 + ucast n)"

text \<open>\<open>b.toString(16).padStart(2, '0')\<close> for a byte.\<close>

definition hexByte :: "8 word \<Rightarrow> jsstring" where
  "hexByte b = [hexDigit (drop_bit 4 b), hexDigit (b AND 0xF)]"

definition stableHash :: "jsstring \<Rightarrow> jsstring" where
  "stableHash input = take 12 (concat (map hexByte (sha1 (utf8 input))))"

text \<open>
  The hash of the earlier version of the worker. \<open>(hash << 5) - hash + char\<close> is reduced
  to a signed 32-bit integer by \<open>hash & hash\<close>; \<open>Math.abs(hash).toString(36)\<close> prints its
  magnitude in base 36.
\<close>

fun simpleHashLoop :: "32 word \<Rightarrow> jsstring \<Rightarrow> 32 word" where
  "simpleHashLoop hash [] = hash"
| "simpleHashLoop hash (c # cs) = simpleHashLoop (push_bit 5 hash - hash + ucast c) cs"

definition digit36 :: "nat \<Rightarrow> 16 word" where
  "digit36 d = (if d < 10 then 0x30 + of_nat d else 0x57 + of_nat d)"

fun toString36 :: "nat \<Rightarrow> jsstring" where
  "toString36 n =
     (if n < 36 then [digit36 n] else toString36 (n div 36) @ [digit36 (n mod 36)])"

definition simpleHash :: "jsstring \<Rightarrow> jsstring" where
  "simpleHash input = toString36 (nat \<bar>sint (simpleHashLoop 0 input)\<bar>)"

subsection \<open>normalizeText\<close>

text \<open>The second \<open>replace\<close>: every maximal run of white space becomes one space.\<close>

function collapseSpaces :: "jsstring \<Rightarrow> jsstring" where
  "collapseSpaces [] = []"
| "collapseSpaces (c # cs) =
     (if isWhiteSpace c then 0x20 # collapseSpaces (dropWhile isWhiteSpace cs)
      else c # collapseSpaces cs)"
  by pat_completeness auto
termination
  by (relation "measure length") (auto simp: less_Suc_eq_le length_dropWhile_le)

text \<open>The first \<open>replace\<close> of \<open>normalizeText\<close>: one leading U+FEFF is removed.\<close>

fun removeBOM :: "jsstring \<Rightarrow> jsstring" where
  "removeBOM (c # cs) = (if c = 0xFEFF then cs else c # cs)"
| "removeBOM [] = []"

text \<open>
  \<open>normalizeText(text)\<close>. The cells it is applied to are strings, or \<open>undefined\<close> where a
  row is shorter than the header; \<open>getValueByAliases\<close> below gives \<open>''\<close> there, as
  \<open>if (!text) return ''\<close> does.
\<close>

definition normalizeText :: "jsstring \<Rightarrow> jsstring" where
  "normalizeText text = (if text = [] then [] else collapseSpaces (trim (removeBOM text)))"

subsection \<open>Timestamps\<close>

text \<open>
  \<open>Date.prototype.toISOString\<close> of a valid time value: the proleptic Gregorian date of
  the day \<open>t div 86400000\<close> and the time within it; a year outside 0..9999 is written
  with a sign and six digits.
\<close>

fun digitsN :: "nat \<Rightarrow> int \<Rightarrow> jsstring" where
  "digitsN 0 n = []"
| "digitsN (Suc w) n = digitsN w (n div 10) @ [0x30 + of_int (n mod 10)]"

definition civilFromDays :: "int \<Rightarrow> int \<times> int \<times> int" where
  "civilFromDays z0 =
     (let z = z0 + 719468;
          era = z div 146097;
          doe = z - era * 146097;
          yoe = (doe - doe div 1460 + doe div 36524 - doe div 146096) div 365;
          doy = doe - (365 * yoe + yoe div 4 - yoe div 100);
          mp = (5 * doy + 2) div 153;
          d = doy - (153 * mp + 2) div 5 + 1;
          m = (if mp < 10 then mp + 3 else mp - 9);
          y = yoe + era * 400 + (if m \<le> 2 then 1 else 0)
      in (y, m, d))"

definition isoYear :: "int \<Rightarrow> jsstring" where
  "isoYear y =
     (if 0 \<le> y \<and> y \<le> 9999 then digitsN 4 y
      else (if y < 0 then js ''-'' else js ''+'') @ digitsN 6 \<bar>y\<bar>)"

definition isoDate :: "int \<Rightarrow> jsstring" where
  "isoDate t =
     (case civilFromDays (t div 86400000) of
        (y, m, d) \<Rightarrow> isoYear y @ js ''-'' @ digitsN 2 m @ js ''-'' @ digitsN 2 d)"

definition isoTime :: "int \<Rightarrow> jsstring" where
  "isoTime t =
     (let ms = t mod 86400000
      in digitsN 2 (ms div 3600000) @ js '':'' @ digitsN 2 (ms div 60000 mod 60) @ js '':''
         @ digitsN 2 (ms div 1000 mod 60) @ js ''.'' @ digitsN 3 (ms mod 1000))"

definition toISOString :: "int \<Rightarrow> jsstring" where
  "toISOString t = isoDate t @ js ''T'' @ isoTime t @ js ''Z''"

text \<open>
  The \<open>replace\<close> of \<open>parseTimestamp\<close>: when the string ends in white space followed by
  UTC in any case, that white space (the whole run: the match is the leftmost one) and
  the three letters are removed.
\<close>

definition stripUTC :: "jsstring \<Rightarrow> jsstring" where
  "stripUTC s =
     (let n = length s
      in if 4 \<le> n \<and> map asciiUpper (drop (n - 3) s) = js ''UTC'' \<and> isWhiteSpace (s ! (n - 4))
         then trimEnd (take (n - 3) s) else s)"

definition parseTimestamp :: "host \<Rightarrow> jsstring \<Rightarrow> jsstring" where
  "parseTimestamp h dateStr =
     (if dateStr = [] then []
      else (let cleanDate = trim (stripUTC dateStr)
            in case newDate h cleanDate of
                 None \<Rightarrow> []
               | Some t \<Rightarrow> toISOString t))"

text \<open>
  \<open>getDayBucket(ts)\<close>. On an invalid date \<open>toISOString\<close> throws a RangeError, which the
  \<open>catch\<close> turns into \<open>'unknown'\<close>.
\<close>

definition getDayBucket :: "host \<Rightarrow> jsstring \<Rightarrow> jsstring" where
  "getDayBucket h ts =
     (if ts = [] then js ''unknown''
      else (case newDate h ts of
              None \<Rightarrow> js ''unknown''
            | Some t \<Rightarrow> hd (split 0x54 (toISOString t))))"

subsection \<open>Header aliases\<close>

text \<open>
  An alias is a string, compared with \<open>===\<close>, or a regular expression. The expressions
  of the source are of two shapes: \<open>/^X$/i\<close> (\<open>WholeCI X\<close>) and \<open>/X/i\<close> (\<open>PartCI X\<close>).
  \<open>/RECIPIENT PROFILE URLS?/i\<close> is not anchored, so its optional last letter changes
  nothing: it is \<open>PartCI\<close> of \<open>RECIPIENT PROFILE URL\<close>.
\<close>

datatype header_alias = Lit jsstring | WholeCI jsstring | PartCI jsstring

fun aliasMatches :: "jsstring \<Rightarrow> header_alias \<Rightarrow> bool" where
  "aliasMatches header (Lit a) = (header = a)"
| "aliasMatches header (WholeCI p) = (map asciiUpper header = map asciiUpper p)"
| "aliasMatches header (PartCI p) = includes_js (map asciiUpper header) (map asciiUpper p)"

text \<open>\<open>findHeaderIndex\<close>: the first header that some alias matches; \<open>None\<close> for -1.\<close>

fun findHeaderIndex :: "jsstring list \<Rightarrow> header_alias list \<Rightarrow> nat option" where
  "findHeaderIndex [] aliases = None"
| "findHeaderIndex (header # headers) aliases =
     (if list_ex (aliasMatches header) aliases then Some 0
      else map_option Suc (findHeaderIndex headers aliases))"

definition getValueByAliases :: "jsstring list \<Rightarrow> jsstring list \<Rightarrow> header_alias list \<Rightarrow> jsstring" where
  "getValueByAliases row headers aliases =
     (case findHeaderIndex headers aliases of
        None \<Rightarrow> []
      | Some index \<Rightarrow> if index < length row then normalizeText (row ! index) else [])"

text \<open>An alias list of plain strings.\<close>

definition lits :: "string list \<Rightarrow> header_alias list" where
  "lits names = map (\<lambda>n. Lit (js n)) names"

text \<open>The filter of the data rows: \<open>row.some(cell => normalizeText(cell))\<close>.\<close>

definition nonEmptyRow :: "jsstring list \<Rightarrow> bool" where
  "nonEmptyRow row = list_ex (\<lambda>cell. normalizeText cell \<noteq> []) row"

text \<open>\<open>x || undefined\<close> for an optional field.\<close>

definition orUndefined :: "jsstring \<Rightarrow> jsstring option" where
  "orUndefined x = (if x = [] then None else Some x)"

text \<open>The warning about a date that did not parse, pushed by every normalizer.\<close>

definition dateWarning :: "string \<Rightarrow> jsstring \<Rightarrow> jsstring \<Rightarrow> jsstring list" where
  "dateWarning kind raw ts =
     (if raw \<noteq> [] \<and> ts = [] then [js kind @ js '': Could not parse date '' @ [0x22] @ raw @ [0x22]]
      else [])"

subsection \<open>The five record kinds (types/parser.ts)\<close>

datatype meOrThem = Me | Them

datatype direction = Sent | Received

datatype status = Accepted | Pending | Ignored | Unknown

record contact =
  contact_id :: jsstring
  contact_name :: jsstring
  contact_title :: "jsstring option"
  contact_company :: "jsstring option"
  contact_location :: "jsstring option"
  contact_connectedAt :: jsstring
  contact_url :: "jsstring option"

record message =
  message_id :: jsstring
  threadId :: jsstring
  meOrThem :: meOrThem
  otherId :: jsstring
  body :: jsstring
  message_ts :: jsstring

record invite =
  invite_id :: jsstring
  invite_direction :: direction
  counterpartName :: jsstring
  invite_status :: status
  invite_message :: "jsstring option"
  invite_ts :: jsstring

record companyFollow =
  follow_id :: jsstring
  follow_company :: jsstring
  follow_ts :: jsstring

record savedJob =
  job_id :: jsstring
  job_company :: jsstring
  job_title :: jsstring
  job_ts :: jsstring

subsection \<open>processConnections\<close>

text \<open>
  Each normalizer receives the array \<open>warnings\<close> of the payload and pushes to it; the
  model takes the list and returns it extended. The body of the loop over the data rows
  is a function of its own, giving the record and the warnings of that row.
\<close>

definition contactOfRow :: "host \<Rightarrow> jsstring list \<Rightarrow> jsstring list \<Rightarrow> contact \<times> jsstring list" where
  "contactOfRow h headers row =
     (let firstName = getValueByAliases row headers (lits [''First Name'']);
          lastName = getValueByAliases row headers (lits [''Last Name'']);
          url = getValueByAliases row headers (lits [''URL'', ''Profile URL'']);
          company = getValueByAliases row headers (lits [''Company'', ''Company Name'']);
          position = getValueByAliases row headers (lits [''Position'', ''Title'', ''Job Title'']);
          connectedOn =
            getValueByAliases row headers (lits [''Connected On'', ''Connected on'', ''Connected'']);
          location =
            getValueByAliases row headers
              (lits [''Location'', ''City'', ''City, State'', ''City/Region'']);
          trimmed = trim (firstName @ js '' '' @ lastName);
          name = (if trimmed \<noteq> [] then trimmed else js ''Unknown'');
          connectedAt = parseTimestamp h connectedOn;
          idSource =
            (if url \<noteq> [] then url else name @ js ''|'' @ company @ js ''|'' @ connectedAt)
      in (\<lparr>contact_id = stableHash idSource, contact_name = name,
           contact_title = orUndefined position, contact_company = orUndefined company,
           contact_location = orUndefined location, contact_connectedAt = connectedAt,
           contact_url = orUndefined url\<rparr>,
          dateWarning ''Connections'' connectedOn connectedAt))"

text \<open>The scan for the header row: the first of the rows 0..9 with a cell First Name.\<close>

definition findFirstNameRow :: "jsstring list list \<Rightarrow> nat option" where
  "findFirstNameRow rawData =
     find (\<lambda>i. list_ex (\<lambda>cell. normalizeText cell = js ''First Name'') (rawData ! i))
       [0..<min 10 (length rawData)]"

definition processConnections ::
  "host \<Rightarrow> jsstring list list \<Rightarrow> jsstring list \<Rightarrow> jsstring \<Rightarrow> contact list \<times> jsstring list" where
  "processConnections h rawData warnings fileName =
     (case findFirstNameRow rawData of
        None \<Rightarrow>
          ([], warnings @ [js ''Connections: Could not find header row with '' @ [0x22]
                            @ js ''First Name'' @ [0x22] @ js '' in '' @ fileName])
      | Some headerRowIndex \<Rightarrow>
          (let headers = map normalizeText (rawData ! headerRowIndex);
               dataRows = filter nonEmptyRow (drop (headerRowIndex + 1) rawData);
               results = map (contactOfRow h headers) dataRows;
               contacts = map fst results
           in (contacts,
               warnings
               @ [js ''Connections: Detected headers: '' @ join (js '' | '') headers,
                  js ''Connections: '' @ showNat (length dataRows) @ js '' data rows found in ''
                    @ fileName]
               @ concat (map snd results)
               @ [js ''Connections: '' @ showNat (length contacts)
                    @ js '' contacts processed from '' @ fileName])))"

subsection \<open>processMessages\<close>

text \<open>The recipients of a row: \<open>recipientUrls.split(',').map(normalizeText).filter(Boolean)\<close>.\<close>

definition recipientsOf :: "jsstring \<Rightarrow> jsstring list" where
  "recipientsOf recipientUrls =
     filter (\<lambda>url. url \<noteq> []) (map normalizeText (split 0x2C recipientUrls))"

text \<open>
  The thread key (the block under "Determine threadId"). \<open>recipients.sort()\<close> has no
  comparator: it orders strings by their code units, the order of \<open>sort\<close> on lists of
  words.
\<close>

definition threadIdOf ::
  "host \<Rightarrow> jsstring \<Rightarrow> jsstring \<Rightarrow> jsstring \<Rightarrow> jsstring \<Rightarrow> jsstring \<Rightarrow> jsstring" where
  "threadIdOf h conversationId recipientUrls to from ts =
     (if conversationId \<noteq> [] then conversationId
      else (let recipients = recipientsOf recipientUrls
            in if length recipients = 1 then stableHash (hd recipients)
               else if length recipients > 1 then stableHash (join (js ''|'') (sort recipients))
               else (let participant = (if to \<noteq> [] then to else from);
                         dayBucket = getDayBucket h ts
                     in stableHash (participant @ js ''|'' @ dayBucket))))"

definition messageOfRow ::
  "host \<Rightarrow> jsstring list \<Rightarrow> jsstring list \<Rightarrow> message option \<times> jsstring list" where
  "messageOfRow h headers row =
     (let conversationId = getValueByAliases row headers [WholeCI (js ''CONVERSATION ID'')];
          from = getValueByAliases row headers [WholeCI (js ''FROM'')];
          to = getValueByAliases row headers [WholeCI (js ''TO'')];
          senderUrl = getValueByAliases row headers [PartCI (js ''SENDER PROFILE URL'')];
          recipientUrls = getValueByAliases row headers [PartCI (js ''RECIPIENT PROFILE URL'')];
          date = getValueByAliases row headers [WholeCI (js ''DATE''), PartCI (js ''Sent On'')];
          content =
            getValueByAliases row headers [WholeCI (js ''CONTENT''), PartCI (js ''Message'')]
      in if content = [] then (None, [])
         else (let ts = parseTimestamp h date;
                   who = (if includes_js (toLowerCase h from) (js ''you'') then Me else Them);
                   thread = threadIdOf h conversationId recipientUrls to from ts;
                   other =
                     (if who = Them then senderUrl
                      else (case recipientsOf recipientUrls of [] \<Rightarrow> [] | r # _ \<Rightarrow> r))
               in (Some \<lparr>message_id =
                            stableHash (thread @ js ''|'' @ ts @ js ''|'' @ take 40 content),
                          threadId = thread, meOrThem = who, otherId = other, body = content,
                          message_ts = ts\<rparr>,
                   dateWarning ''Messages'' date ts)))"

text \<open>
  The four normalizers other than \<open>processConnections\<close> share their frame: fewer than
  two rows is "Insufficient data"; otherwise row 0 is the header row.
\<close>

definition processMessages ::
  "host \<Rightarrow> jsstring list list \<Rightarrow> jsstring list \<Rightarrow> jsstring \<Rightarrow> message list \<times> jsstring list" where
  "processMessages h rawData warnings fileName =
     (if length rawData < 2
      then ([], warnings @ [js ''Messages: Insufficient data in '' @ fileName])
      else (let headers = map normalizeText (hd rawData);
                dataRows = filter nonEmptyRow (drop 1 rawData);
                results = map (messageOfRow h headers) dataRows;
                messages = List.map_filter fst results
            in (messages,
                warnings
                @ [js ''Messages: Detected headers: '' @ join (js '' | '') headers,
                   js ''Messages: '' @ showNat (length dataRows) @ js '' data rows found in ''
                     @ fileName]
                @ concat (map snd results)
                @ [js ''Messages: '' @ showNat (length messages)
                     @ js '' messages processed from '' @ fileName])))"

subsection \<open>processInvitations\<close>

definition directionLabel :: "direction \<Rightarrow> jsstring" where
  "directionLabel d = (case d of Sent \<Rightarrow> js ''sent'' | Received \<Rightarrow> js ''received'')"

definition inviteOfRow ::
  "host \<Rightarrow> jsstring list \<Rightarrow> jsstring list \<Rightarrow> invite option \<times> jsstring list" where
  "inviteOfRow h headers row =
     (let from = getValueByAliases row headers (lits [''From'']);
          to = getValueByAliases row headers (lits [''To'']);
          sentAt = getValueByAliases row headers (lits [''Sent At'', ''Date'', ''Sent On'']);
          note = getValueByAliases row headers (lits [''Message'', ''Note'']);
          dir = getValueByAliases row headers (lits [''Direction'', ''Type''])
      in if from = [] \<and> to = [] then (None, [])
         else (let ts = parseTimestamp h sentAt;
                   inviteDirection =
                     (if includes_js (toLowerCase h dir) (js ''outgoing'') then Sent
                      else if includes_js (toLowerCase h dir) (js ''incoming'') then Received
                      else if includes_js (toLowerCase h from) (js ''you'') then Sent
                      else Received);
                   counterpart = (if inviteDirection = Sent then to else from)
               in (Some \<lparr>invite_id =
                            stableHash (directionLabel inviteDirection @ js ''|'' @ counterpart
                                        @ js ''|'' @ ts),
                          invite_direction = inviteDirection, counterpartName = counterpart,
                          invite_status = Unknown, invite_message = orUndefined note,
                          invite_ts = ts\<rparr>,
                   dateWarning ''Invitations'' sentAt ts)))"

definition processInvitations ::
  "host \<Rightarrow> jsstring list list \<Rightarrow> jsstring list \<Rightarrow> jsstring \<Rightarrow> invite list \<times> jsstring list" where
  "processInvitations h rawData warnings fileName =
     (if length rawData < 2
      then ([], warnings @ [js ''Invitations: Insufficient data in '' @ fileName])
      else (let headers = map normalizeText (hd rawData);
                dataRows = filter nonEmptyRow (drop 1 rawData);
                results = map (inviteOfRow h headers) dataRows;
                invites = List.map_filter fst results
            in (invites,
                warnings
                @ [js ''Invitations: Detected headers: '' @ join (js '' | '') headers,
                   js ''Invitations: '' @ showNat (length dataRows) @ js '' data rows found in ''
                     @ fileName]
                @ concat (map snd results)
                @ [js ''Invitations: '' @ showNat (length invites)
                     @ js '' invitations processed from '' @ fileName])))"

subsection \<open>processCompanyFollows\<close>

definition followOfRow ::
  "host \<Rightarrow> jsstring list \<Rightarrow> jsstring list \<Rightarrow> companyFollow option \<times> jsstring list" where
  "followOfRow h headers row =
     (let organization = getValueByAliases row headers (lits [''Organization'', ''Company'']);
          followedOn = getValueByAliases row headers (lits [''Followed On'', ''Date''])
      in if organization = [] then (None, [])
         else (let ts = parseTimestamp h followedOn
               in (Some \<lparr>follow_id = stableHash (organization @ js ''|'' @ ts),
                          follow_company = organization, follow_ts = ts\<rparr>,
                   dateWarning ''Company Follows'' followedOn ts)))"

definition processCompanyFollows ::
  "host \<Rightarrow> jsstring list list \<Rightarrow> jsstring list \<Rightarrow> jsstring
     \<Rightarrow> companyFollow list \<times> jsstring list" where
  "processCompanyFollows h rawData warnings fileName =
     (if length rawData < 2
      then ([], warnings @ [js ''Company Follows: Insufficient data in '' @ fileName])
      else (let headers = map normalizeText (hd rawData);
                dataRows = filter nonEmptyRow (drop 1 rawData);
                results = map (followOfRow h headers) dataRows;
                follows = List.map_filter fst results
            in (follows,
                warnings
                @ [js ''Company Follows: Detected headers: '' @ join (js '' | '') headers,
                   js ''Company Follows: '' @ showNat (length dataRows)
                     @ js '' data rows found in '' @ fileName]
                @ concat (map snd results)
                @ [js ''Company Follows: '' @ showNat (length follows)
                     @ js '' follows processed from '' @ fileName])))"

subsection \<open>processSavedJobs\<close>

definition jobFileType :: "bool \<Rightarrow> string" where
  "jobFileType isApplications = (if isApplications then ''Job Applications'' else ''Saved Jobs'')"

definition jobOfRow ::
  "host \<Rightarrow> bool \<Rightarrow> jsstring list \<Rightarrow> jsstring list \<Rightarrow> savedJob option \<times> jsstring list" where
  "jobOfRow h isApplications headers row =
     (let title = getValueByAliases row headers (lits [''Title'', ''Job Title'']);
          company = getValueByAliases row headers (lits [''Company'', ''Company Name'']);
          dateValue =
            getValueByAliases row headers
              (lits [''Saved On'', ''Date'', ''Applied On'', ''Application Date'', ''Created On''])
      in if title = [] \<and> company = [] then (None, [])
         else (let ts = parseTimestamp h dateValue
               in (Some \<lparr>job_id = stableHash (company @ js ''|'' @ title @ js ''|'' @ ts),
                          job_company = (if company \<noteq> [] then company else js ''Unknown''),
                          job_title = (if title \<noteq> [] then title else js ''Unknown''),
                          job_ts = ts\<rparr>,
                   dateWarning (jobFileType isApplications) dateValue ts)))"

definition processSavedJobs ::
  "host \<Rightarrow> jsstring list list \<Rightarrow> jsstring list \<Rightarrow> jsstring \<Rightarrow> bool
     \<Rightarrow> savedJob list \<times> jsstring list" where
  "processSavedJobs h rawData warnings fileName isApplications =
     (if length rawData < 2
      then ([], warnings @ [js (jobFileType isApplications) @ js '': Insufficient data in ''
                             @ fileName])
      else (let headers = map normalizeText (hd rawData);
                dataRows = filter nonEmptyRow (drop 1 rawData);
                fileType = js (jobFileType isApplications);
                results = map (jobOfRow h isApplications headers) dataRows;
                jobs = List.map_filter fst results
            in (jobs,
                warnings
                @ [fileType @ js '': Detected headers: '' @ join (js '' | '') headers,
                   fileType @ js '': '' @ showNat (length dataRows) @ js '' data rows found in ''
                     @ fileName]
                @ concat (map snd results)
                @ [fileType @ js '': '' @ showNat (length jobs) @ js '' jobs processed from ''
                     @ fileName])))"

subsection \<open>Files and archives\<close>

text \<open>
  The bytes of a file reach the worker through a library chosen by the file's name. A
  blob is modelled by what each library makes of it:
  \<^item> \<open>text_rows\<close>: the rows of cells PapaParse finds in its text (\<open>header: false\<close>),
    before \<open>transform\<close>;
  \<^item> \<open>sheet_rows\<close>: the rows of the first sheet as SheetJS returns them, each cell
    already passed through \<open>String(cell || '')\<close>, or the message of the error SheetJS
    throws.
\<close>

record blob =
  text_rows :: "jsstring list list"
  sheet_rows :: "jsstring + jsstring list list"

definition parseCSV :: "blob \<Rightarrow> jsstring list list" where
  "parseCSV content = map (map normalizeText) (text_rows content)"

definition parseXLSX :: "blob \<Rightarrow> jsstring + jsstring list list" where
  "parseXLSX content =
     (case sheet_rows content of
        Inl msg \<Rightarrow> Inl msg
      | Inr jsonData \<Rightarrow> Inr (map (map normalizeText) jsonData))"

text \<open>
  An entry of \<open>zipData.files\<close>; \<open>entry_blob\<close> is \<open>Inl\<close> when reading the entry fails.
  A file handed to the worker: \<open>file_blob\<close> is what \<open>text()\<close> or \<open>arrayBuffer()\<close>
  give (\<open>Inl\<close> the message of a failure), \<open>file_zip\<close> what JSZip makes of it (\<open>Inl\<close>
  the message when it cannot be opened).
\<close>

record zip_entry =
  entry_name :: jsstring
  entry_dir :: bool
  entry_blob :: "jsstring + blob"

record input_file =
  file_name :: jsstring
  file_blob :: "jsstring + blob"
  file_zip :: "jsstring + zip_entry list"

definition isRelevantFile :: "jsstring \<Rightarrow> bool" where
  "isRelevantFile lowerName =
     list_ex (\<lambda>pattern. includes_js lowerName (js pattern))
       [''connections'', ''messages'', ''invitations'', ''company follows'', ''saved jobs'',
        ''job applications'']"

text \<open>
  The test on the files of the messages family, three times in the source: the name
  contains messages and is not the canonical messages.csv.
\<close>

definition isCanonicalMessages :: "host \<Rightarrow> jsstring \<Rightarrow> bool" where
  "isCanonicalMessages h name =
     (toLowerCase h (last (split 0x2F name)) = js ''messages.csv''
      \<or> endsWith (toLowerCase h name) (js ''/messages.csv''))"

definition isAuxiliaryMessages :: "host \<Rightarrow> jsstring \<Rightarrow> bool" where
  "isAuxiliaryMessages h name =
     (includes_js (toLowerCase h name) (js ''messages'') \<and> \<not> isCanonicalMessages h name)"

text \<open>The body of the loop of \<open>extractZipFiles\<close>: what one entry adds to the result.\<close>

definition extractEntry :: "host \<Rightarrow> zip_entry \<Rightarrow> (jsstring \<times> blob) list" where
  "extractEntry h e =
     (let fileName = entry_name e; lowerName = toLowerCase h fileName
      in if entry_dir e then []
         else if isAuxiliaryMessages h fileName then []
         else if isRelevantFile lowerName then
           (if endsWith fileName (js ''.csv'') then
              (case entry_blob e of Inr content \<Rightarrow> [(fileName, content)] | Inl _ \<Rightarrow> [])
            else if endsWith fileName (js ''.xlsx'') then
              (case entry_blob e of Inr content \<Rightarrow> [(fileName, content)] | Inl _ \<Rightarrow> [])
            else [])
         else [])"

definition extractZipFiles :: "host \<Rightarrow> zip_entry list \<Rightarrow> (jsstring \<times> blob) list" where
  "extractZipFiles h entries = concat (map (extractEntry h) entries)"

subsection \<open>The message handler\<close>

record summary =
  filesProcessed :: "jsstring list"
  rows :: "(jsstring \<times> nat) list"
  warnings :: "jsstring list"

record payload =
  contacts :: "contact list"
  messages :: "message list"
  invites :: "invite list"
  companyFollows :: "companyFollow list"
  savedJobs :: "savedJob list"
  summary :: summary

definition emptyPayload :: payload where
  "emptyPayload =
     \<lparr>contacts = [], messages = [], invites = [], companyFollows = [], savedJobs = [],
      summary = \<lparr>filesProcessed = [], rows = [], warnings = []\<rparr>\<rparr>"

definition pushWarning :: "jsstring \<Rightarrow> payload \<Rightarrow> payload" where
  "pushWarning w p = p\<lparr>summary := (summary p)\<lparr>warnings := warnings (summary p) @ [w]\<rparr>\<rparr>"

definition setWarnings :: "jsstring list \<Rightarrow> payload \<Rightarrow> payload" where
  "setWarnings ws p = p\<lparr>summary := (summary p)\<lparr>warnings := ws\<rparr>\<rparr>"

text \<open>\<open>rows[fileType] = n\<close> on an object: an existing key keeps its place.\<close>

fun setProperty :: "jsstring \<Rightarrow> nat \<Rightarrow> (jsstring \<times> nat) list \<Rightarrow> (jsstring \<times> nat) list" where
  "setProperty k v [] = [(k, v)]"
| "setProperty k v ((k', v') # r) =
     (if k' = k then (k, v) # r else (k', v') # setProperty k v r)"

text \<open>An element of \<open>filesToProcess\<close>.\<close>

record pending =
  pending_name :: jsstring
  pending_content :: blob
  pending_originalName :: jsstring

text \<open>
  The body of the first loop of the handler: the elements one file adds to
  \<open>filesToProcess\<close>, and the warnings it pushes.
\<close>

definition gatherFile :: "host \<Rightarrow> input_file \<Rightarrow> pending list \<times> jsstring list" where
  "gatherFile h f =
     (if endsWith (toLowerCase h (file_name f)) (js ''.zip'') then
        (case file_zip f of
           Inl msg \<Rightarrow>
             ([], [js ''Failed to extract ZIP file '' @ file_name f @ js '': '' @ msg])
         | Inr entries \<Rightarrow>
             (let extractedFiles = extractZipFiles h entries
              in (map (\<lambda>(name, content).
                         \<lparr>pending_name = name, pending_content = content,
                          pending_originalName = file_name f\<rparr>) extractedFiles,
                  [js ''Extracted '' @ showNat (length extractedFiles) @ js '' files from ''
                   @ file_name f])))
      else (let fileName = toLowerCase h (file_name f)
            in if isAuxiliaryMessages h (file_name f) then
                 ([], [js ''Ignoring auxiliary messages file '' @ last (split 0x2F (file_name f))])
               else if isRelevantFile fileName then
                 (if endsWith fileName (js ''.csv'') \<or> endsWith fileName (js ''.xlsx'') then
                    (case file_blob f of
                       Inr content \<Rightarrow>
                         ([\<lparr>pending_name = file_name f, pending_content = content,
                            pending_originalName = file_name f\<rparr>], [])
                     | Inl msg \<Rightarrow>
                         ([], [js ''Failed to read file '' @ file_name f @ js '': '' @ msg]))
                  else ([], []))
               else ([], [js ''Unrecognized file: '' @ file_name f])))"

datatype fileType =
  Connections | Messages | Invitations | CompanyFollows | SavedJobs | JobApplications

definition label :: "fileType \<Rightarrow> jsstring" where
  "label t =
     (case t of
        Connections \<Rightarrow> js ''Connections''
      | Messages \<Rightarrow> js ''messages''
      | Invitations \<Rightarrow> js ''Invitations''
      | CompanyFollows \<Rightarrow> js ''Company Follows''
      | SavedJobs \<Rightarrow> js ''Saved Jobs''
      | JobApplications \<Rightarrow> js ''Job Applications'')"

text \<open>"Determine file type based on name", on the lower-cased name.\<close>

definition fileTypeOf :: "jsstring \<Rightarrow> fileType option" where
  "fileTypeOf fileName =
     (if includes_js fileName (js ''connections'') then Some Connections
      else if includes_js fileName (js ''messages'') then Some Messages
      else if includes_js fileName (js ''invitations'') then Some Invitations
      else if includes_js fileName (js ''company follows'') then Some CompanyFollows
      else if includes_js fileName (js ''saved jobs'') then Some SavedJobs
      else if includes_js fileName (js ''job applications'') then Some JobApplications
      else None)"

text \<open>
  From \<open>payload.summary.filesProcessed.push\<close> to the end of the \<open>switch\<close>: the label and
  the row count are recorded, then the normalizer of the file type runs on the warnings
  of the payload and its result is stored.
\<close>

definition dispatch :: "host \<Rightarrow> payload \<Rightarrow> pending \<Rightarrow> fileType \<Rightarrow> jsstring list list \<Rightarrow> payload" where
  "dispatch h payload fileData fileType data =
     (let s = summary payload;
          p = payload\<lparr>summary :=
                s\<lparr>filesProcessed :=
                    filesProcessed s
                    @ [label fileType @ js '' ('' @ pending_originalName fileData @ js '')''],
                  rows := setProperty (label fileType) (length data) (rows s)\<rparr>\<rparr>;
          ws = warnings s;
          name = pending_name fileData
      in case fileType of
           Connections \<Rightarrow>
             (case processConnections h data ws name of
                (result, ws') \<Rightarrow> setWarnings ws' (p\<lparr>contacts := result\<rparr>))
         | Messages \<Rightarrow>
             (case processMessages h data ws name of
                (result, ws') \<Rightarrow> setWarnings ws' (p\<lparr>messages := result\<rparr>))
         | Invitations \<Rightarrow>
             (case processInvitations h data ws name of
                (result, ws') \<Rightarrow> setWarnings ws' (p\<lparr>invites := result\<rparr>))
         | CompanyFollows \<Rightarrow>
             (case processCompanyFollows h data ws name of
                (result, ws') \<Rightarrow> setWarnings ws' (p\<lparr>companyFollows := result\<rparr>))
         | SavedJobs \<Rightarrow>
             (case processSavedJobs h data ws name False of
                (result, ws') \<Rightarrow> setWarnings ws' (p\<lparr>savedJobs := savedJobs p @ result\<rparr>))
         | JobApplications \<Rightarrow>
             (case processSavedJobs h data ws name True of
                (result, ws') \<Rightarrow> setWarnings ws' (p\<lparr>savedJobs := savedJobs p @ result\<rparr>)))"

text \<open>The body of the second loop of the handler, on one element of \<open>filesToProcess\<close>.\<close>

definition processFile :: "host \<Rightarrow> payload \<Rightarrow> pending \<Rightarrow> payload" where
  "processFile h payload fileData =
     (let fileName = toLowerCase h (pending_name fileData)
      in if isAuxiliaryMessages h (pending_name fileData) then
           pushWarning (js ''Ignoring auxiliary messages file ''
                        @ last (split 0x2F (pending_name fileData))) payload
         else (case fileTypeOf fileName of
                 None \<Rightarrow> pushWarning (js ''Unrecognized file: '' @ pending_name fileData) payload
               | Some fileType \<Rightarrow>
                   if endsWith fileName (js ''.csv'') then
                     dispatch h payload fileData fileType (parseCSV (pending_content fileData))
                   else if endsWith fileName (js ''.xlsx'') then
                     (case parseXLSX (pending_content fileData) of
                        Inl msg \<Rightarrow>
                          pushWarning (js ''Error processing '' @ pending_name fileData
                                       @ js '': '' @ msg) payload
                      | Inr data \<Rightarrow> dispatch h payload fileData fileType data)
                   else pushWarning (js ''Unsupported file format: '' @ pending_name fileData)
                          payload))"

text \<open>The handler of the worker: one invocation, from the files to the posted payload.\<close>

definition handler :: "host \<Rightarrow> input_file list \<Rightarrow> payload" where
  "handler h files =
     (let gathered = map (gatherFile h) files;
          filesToProcess = concat (map fst gathered)
      in foldl (processFile h) (setWarnings (concat (map snd gathered)) emptyPayload)
           filesToProcess)"

subsection \<open>A host for the examples\<close>

text \<open>
  The examples below run on a concrete host: ASCII letters are lower-cased, and
  \<open>Date.parse\<close> knows two formats, the one of \<open>toISOString\<close> (four-digit years) and
  \<open>YYYY-MM-DD HH:MM:SS\<close>. The second carries no zone designator and is read as local
  time, as V8 and SpiderMonkey read it; \<open>offset\<close> is the local zone in minutes east of
  UTC.
\<close>

definition digitsValue :: "jsstring \<Rightarrow> nat option" where
  "digitsValue s =
     (if s \<noteq> [] \<and> list_all (\<lambda>c. 0x30 \<le> c \<and> c \<le> 0x39) s
      then Some (foldl (\<lambda>n c. 10 * n + unat (c - 0x30)) 0 s) else None)"

definition daysFromCivil :: "int \<Rightarrow> int \<Rightarrow> int \<Rightarrow> int" where
  "daysFromCivil y0 m d =
     (let y = y0 - (if m \<le> 2 then 1 else 0);
          era = y div 400;
          yoe = y - era * 400;
          doy = (153 * (if m > 2 then m - 3 else m + 9) + 2) div 5 + d - 1;
          doe = yoe * 365 + yoe div 4 - yoe div 100 + doy
      in era * 146097 + doe - 719468)"

definition dateTimeFields :: "16 word \<Rightarrow> jsstring \<Rightarrow> int option" where
  "dateTimeFields sep s =
     (if length s = 19 \<and> s ! 4 = 0x2D \<and> s ! 7 = 0x2D \<and> s ! 10 = sep \<and> s ! 13 = 0x3A
         \<and> s ! 16 = 0x3A
      then (case map digitsValue
                   [take 4 s, take 2 (drop 5 s), take 2 (drop 8 s), take 2 (drop 11 s),
                    take 2 (drop 14 s), take 2 (drop 17 s)] of
              [Some y, Some mo, Some d, Some hh, Some mi, Some ss] \<Rightarrow>
                if 1 \<le> mo \<and> mo \<le> 12 \<and> 1 \<le> d \<and> d \<le> 31 \<and> hh < 24 \<and> mi < 60 \<and> ss < 60
                then Some (daysFromCivil (int y) (int mo) (int d) * 86400000
                           + (int hh * 3600 + int mi * 60 + int ss) * 1000)
                else None
            | _ \<Rightarrow> None)
      else None)"

definition localDateParse :: "int \<Rightarrow> jsstring \<Rightarrow> int option" where
  "localDateParse offset s =
     (if length s = 24 \<and> s ! 19 = 0x2E \<and> s ! 23 = 0x5A
      then (case (dateTimeFields 0x54 (take 19 s), digitsValue (take 3 (drop 20 s))) of
              (Some t, Some ms) \<Rightarrow> Some (t + int ms)
            | _ \<Rightarrow> None)
      else map_option (\<lambda>t. t - offset * 60000) (dateTimeFields 0x20 s))"

definition browser :: "int \<Rightarrow> host" where
  "browser offset = \<lparr>toLowerCase = map asciiLower, dateParse = localDateParse offset\<rparr>"

subsection \<open>Example inputs\<close>

text \<open>A Connections table as LinkedIn exports it, and one contact at two moments.\<close>

definition connectionsHeaders :: "jsstring list" where
  "connectionsHeaders =
     map js [''First Name'', ''Last Name'', ''URL'', ''Company'', ''Position'', ''Connected On'']"

definition johnAtTestCorp :: "jsstring list" where
  "johnAtTestCorp =
     map js [''John'', ''Doe'', ''https://linkedin.com/in/johndoe'', ''TestCorp'', ''Engineer'',
             ''2024-01-02 10:00:00 UTC'']"

definition johnAtOtherCorp :: "jsstring list" where
  "johnAtOtherCorp =
     map js [''John'', ''Doe'', ''https://linkedin.com/in/johndoe'', ''OtherCorp'', ''Manager'',
             ''2023-05-06 07:08:09 UTC'']"

text \<open>A Saved Jobs table with a row that has a title and no company.\<close>

definition jobsHeaders :: "jsstring list" where
  "jobsHeaders = map js [''Title'', ''Company'', ''Saved On'']"

definition jobWithoutCompany :: "jsstring list" where
  "jobWithoutCompany = [js ''Engineer'', [], []]"

text \<open>A messages table, and a message to two recipients with no conversation identifier.\<close>

definition messagesHeaders :: "jsstring list" where
  "messagesHeaders =
     map js [''CONVERSATION ID'', ''FROM'', ''TO'', ''DATE'', ''CONTENT'', ''SENDER PROFILE URL'',
             ''RECIPIENT PROFILE URLS'']"

definition teamMeeting :: "jsstring list" where
  "teamMeeting =
     [[], js ''Alice Johnson'', js ''You'', js ''2024-01-20 09:00:00 UTC'',
      js ''Team meeting tomorrow'', js ''https://linkedin.com/in/alicejohnson'',
      js ''https://linkedin.com/in/bob,https://linkedin.com/in/charlie'']"

text \<open>
  A messages table whose first row is a note and whose second row is the header, and
  the name of the canonical messages file.
\<close>

definition messagesWithPreamble :: "jsstring list list" where
  "messagesWithPreamble =
     [[js ''Notes:'', js ''exported for you''],
      map js [''FROM'', ''TO'', ''DATE'', ''CONTENT''],
      [js ''You'', js ''Jane Smith'', [], js ''Hello'']]"

text \<open>Two Connections files handed to the worker in one invocation.\<close>

definition csvBlob :: "jsstring list list \<Rightarrow> blob" where
  "csvBlob table = \<lparr>text_rows = table, sheet_rows = Inl (js ''not a workbook'')\<rparr>"

definition csvFile :: "string \<Rightarrow> jsstring list list \<Rightarrow> input_file" where
  "csvFile name table =
     \<lparr>file_name = js name, file_blob = Inr (csvBlob table),
      file_zip = Inl (js ''not an archive'')\<rparr>"

definition connectionsA :: input_file where
  "connectionsA = csvFile ''Connections.csv'' [connectionsHeaders, johnAtTestCorp]"

definition secondTable :: "jsstring list list" where
  "secondTable =
     [connectionsHeaders,
      [js ''Jane'', js ''Smith'', [], js ''Acme'', [], []],
      [js ''Bob'', js ''Stone'', [], [], [], []]]"

definition connectionsB :: input_file where
  "connectionsB = csvFile ''Connections (1).csv'' secondTable"

text \<open>An invitation sent by the member, and a followed company.\<close>

definition invitationsHeaders :: "jsstring list" where
  "invitationsHeaders = map js [''From'', ''To'', ''Sent At'', ''Message'']"

definition sarahInvite :: "jsstring list" where
  "sarahInvite = [js ''You'', js '' Sarah   Wilson '', [], js ''Would love to connect!'']"

definition followsHeaders :: "jsstring list" where
  "followsHeaders = map js [''Organization'', ''Followed On'']"

definition acmeFollow :: "jsstring list" where
  "acmeFollow = [js ''Acme  Corp'', []]"

text \<open>
  An export archive whose messages file lies in a folder, and one that holds only an
  auxiliary messages file.
\<close>

definition helloTable :: "jsstring list list" where
  "helloTable =
     [map js [''FROM'', ''TO'', ''DATE'', ''CONTENT''],
      [js ''You'', js ''Jane Smith'', [], js ''Hello'']]"

definition csvEntry :: "string \<Rightarrow> jsstring list list \<Rightarrow> zip_entry" where
  "csvEntry name table =
     \<lparr>entry_name = js name, entry_dir = False, entry_blob = Inr (csvBlob table)\<rparr>"

definition zipFile :: "string \<Rightarrow> zip_entry list \<Rightarrow> input_file" where
  "zipFile name entries =
     \<lparr>file_name = js name, file_blob = Inl (js ''not read''), file_zip = Inr entries\<rparr>"

definition nestedExport :: input_file where
  "nestedExport = zipFile ''export.zip'' [csvEntry ''export/messages.csv'' helloTable]"

definition auxiliaryExport :: input_file where
  "auxiliaryExport = zipFile ''export.zip'' [csvEntry ''messages_archive.csv'' helloTable]"

section \<open>Properties\<close>

subsection \<open>The stable identifier\<close>

lemma nibble_cases:
  fixes n :: "8 word"
  assumes "n < 16"
  shows "n \<in> {0, 1, 2, 3, 4, 5, 6, 7, 8, 9, 10, 11, 12, 13, 14, 15}"
proof -
  have "unat n < 16" using assms by (simp add: word_less_nat_alt)
  then have "unat n \<in> {0, 1, 2, 3, 4, 5, 6, 7, 8, 9, 10, 11, 12, 13, 14, 15}"
    by simp arith
  then have "of_nat (unat n)
      \<in> (of_nat ` {0, 1, 2, 3, 4, 5, 6, 7, 8, 9, 10, 11, 12, 13, 14, 15} :: 8 word set)"
    by (rule imageI)
  then show ?thesis by simp
qed

lemma hexDigit_nibble:
  assumes "n < 16"
  shows "hexDigit n \<in> set (js ''0123456789abcdef'')"
  using nibble_cases [OF assms] by (auto simp: hexDigit_def js_def)

lemma high_nibble_less: "drop_bit 4 (b :: 8 word) < 16"
proof -
  have "unat b < 256" using unsigned_less [of b] by simp
  then show ?thesis
    by (simp add: word_less_nat_alt unat_div drop_bit_eq_div)
qed

lemma low_nibble_less: "(b :: 8 word) AND 0xF < 16"
  by (rule le_less_trans [OF word_and_le1]) simp

lemma set_hexByte: "set (hexByte b) \<subseteq> set (js ''0123456789abcdef'')"
  using hexDigit_nibble [OF high_nibble_less [of b]] hexDigit_nibble [OF low_nibble_less [of b]]
  by (simp add: hexByte_def)

lemma set_stableHash: "set (stableHash input) \<subseteq> set (js ''0123456789abcdef'')"
proof -
  have "set (concat (map hexByte bs)) \<subseteq> set (js ''0123456789abcdef'')" for bs
    using set_hexByte by (induction bs) auto
  then show ?thesis
    unfolding stableHash_def by (meson set_take_subset subset_trans)
qed

lemma card_hex_digits: "card (set (js ''0123456789abcdef'')) = 16"
proof -
  have "distinct (js ''0123456789abcdef'')" by (simp add: js_def)
  then show ?thesis by (simp add: distinct_card js_def)
qed

lemma length_bytes32: "length (bytes32 w) = 4"
  by (simp add: bytes32_def)

text \<open>The digest has 20 bytes whatever the message.\<close>

lemma length_sha1: "length (sha1 m) = 20"
  by (simp add: sha1_def Let_def length_bytes32 split: prod.splits)

lemma length_concat_hexByte: "length (concat (map hexByte bs)) = 2 * length bs"
  by (induction bs) (simp_all add: hexByte_def)

lemma length_stableHash: "length (stableHash input) = 12"
  by (simp add: stableHash_def length_concat_hexByte length_sha1)

lemma range_stableHash:
  "range stableHash \<subseteq> {xs. set xs \<subseteq> set (js ''0123456789abcdef'') \<and> length xs = 12}"
  using set_stableHash length_stableHash by auto

lemma card_range_stableHash: "card (range stableHash) \<le> 2 ^ 48"
proof -
  let ?S = "{xs. set xs \<subseteq> set (js ''0123456789abcdef'') \<and> length xs = 12}"
  have fin: "finite ?S" by (rule finite_lists_length_eq) simp
  have "card ?S = 16 ^ 12" by (simp add: card_lists_length_eq card_hex_digits)
  moreover have "card (range stableHash) \<le> card ?S"
    by (rule card_mono [OF fin range_stableHash])
  ultimately show ?thesis by simp
qed

lemma toString36_length: "0 < k \<Longrightarrow> n < 36 ^ k \<Longrightarrow> length (toString36 n) \<le> k"
proof (induction k arbitrary: n)
  case 0
  then show ?case by simp
next
  case (Suc k)
  show ?case
  proof (cases "n < 36")
    case True
    then show ?thesis by (subst toString36.simps) simp
  next
    case False
    then have k: "0 < k" using Suc.prems by (cases k) auto
    have "n div 36 < 36 ^ k"
      using Suc.prems by (simp add: less_mult_imp_div_less mult.commute)
    from Suc.IH [OF k this] False show ?thesis by (subst toString36.simps) simp
  qed
qed

text \<open>The rolling hash prints a 32-bit magnitude: at most seven digits in base 36.\<close>

lemma simpleHash_short: "length (simpleHash input) \<le> 7"
proof -
  have "nat \<bar>sint (simpleHashLoop 0 input)\<bar> < 36 ^ 7"
    using sint_range_size [of "simpleHashLoop 0 input"] by (simp add: word_size) arith
  from toString36_length [OF _ this] show ?thesis by (simp add: simpleHash_def)
qed

text \<open>
  C1, as stated: the truncated digest retains at least 64 bits, so the identifiers range
  over at least \<open>2 ^ 64\<close> values. The code keeps 12 hexadecimal digits; the identifiers
  of all inputs together are fewer than \<open>2 ^ 64\<close>.
\<close>

theorem stableHash_space_counterexample: "\<not> 2 ^ 64 \<le> card (range stableHash)"
  using card_range_stableHash by simp

text \<open>
  C1, amended: for every input string the identifier is the first 12 lower-case
  hexadecimal digits of the SHA-1 digest of the UTF-8 encoding of the input, a fixed
  width of 48 bits; the identifiers of all inputs are at most \<open>2 ^ 48\<close>; and the
  identifier is never the output of the signed 32-bit rolling hash \<open>simpleHash\<close>.
\<close>

theorem stableHash_format:
  "stableHash input = take 12 (concat (map hexByte (sha1 (utf8 input))))
   \<and> length (stableHash input) = 12
   \<and> set (stableHash input) \<subseteq> set (js ''0123456789abcdef'')
   \<and> card (range stableHash) \<le> 2 ^ 48
   \<and> stableHash input \<noteq> simpleHash input"
proof -
  have "length (stableHash input) \<noteq> length (simpleHash input)"
    using length_stableHash [of input] simpleHash_short [of input] by simp
  then have "stableHash input \<noteq> simpleHash input" by auto
  then show ?thesis
    using length_stableHash set_stableHash card_range_stableHash
    by (simp add: stableHash_def)
qed

subsection \<open>Contacts\<close>

text \<open>
  C8: a Connections row whose resolved profile URL is not empty gets the hash of that
  URL as its identifier; so two rows with the same URL get the same identifier,
  whatever their company, position and connection date (and whatever their headers and
  the host).
\<close>

theorem contact_id_by_url:
  assumes "getValueByAliases row headers (lits [''URL'', ''Profile URL'']) = url"
    and "getValueByAliases row' headers' (lits [''URL'', ''Profile URL'']) = url"
    and "url \<noteq> []"
  shows "contact_id (fst (contactOfRow h headers row)) = stableHash url \<and>
         contact_id (fst (contactOfRow h' headers' row')) =
           contact_id (fst (contactOfRow h headers row))"
  using assms by (simp add: contactOfRow_def Let_def)

lemmas example_eval =
  getValueByAliases_def lits_def js_def normalizeText_def trim_def trimEnd_def
  isWhiteSpace_def orUndefined_def Let_def

theorem contact_id_by_url_witness:
  "getValueByAliases johnAtTestCorp connectionsHeaders (lits [''URL'', ''Profile URL''])
     = js ''https://linkedin.com/in/johndoe''
   \<and> getValueByAliases johnAtOtherCorp connectionsHeaders (lits [''URL'', ''Profile URL''])
     = js ''https://linkedin.com/in/johndoe''
   \<and> js ''https://linkedin.com/in/johndoe'' \<noteq> []
   \<and> contact_company (fst (contactOfRow (browser 0) connectionsHeaders johnAtTestCorp))
     = Some (js ''TestCorp'')
   \<and> contact_company (fst (contactOfRow (browser 0) connectionsHeaders johnAtOtherCorp))
     = Some (js ''OtherCorp'')
   \<and> contact_id (fst (contactOfRow (browser 0) connectionsHeaders johnAtTestCorp))
     = stableHash (js ''https://linkedin.com/in/johndoe'')
   \<and> contact_id (fst (contactOfRow (browser 0) connectionsHeaders johnAtOtherCorp))
     = contact_id (fst (contactOfRow (browser 0) connectionsHeaders johnAtTestCorp))"
proof -
  have a: "getValueByAliases johnAtTestCorp connectionsHeaders (lits [''URL'', ''Profile URL''])
             = js ''https://linkedin.com/in/johndoe''"
    by (simp add: example_eval connectionsHeaders_def johnAtTestCorp_def)
  have b: "getValueByAliases johnAtOtherCorp connectionsHeaders (lits [''URL'', ''Profile URL''])
             = js ''https://linkedin.com/in/johndoe''"
    by (simp add: example_eval connectionsHeaders_def johnAtOtherCorp_def)
  have c: "js ''https://linkedin.com/in/johndoe'' \<noteq> []"
    by (simp add: js_def)
  have d: "contact_company (fst (contactOfRow (browser 0) connectionsHeaders johnAtTestCorp))
             = Some (js ''TestCorp'')"
    by (simp add: contactOfRow_def example_eval connectionsHeaders_def johnAtTestCorp_def)
  have e: "contact_company (fst (contactOfRow (browser 0) connectionsHeaders johnAtOtherCorp))
             = Some (js ''OtherCorp'')"
    by (simp add: contactOfRow_def example_eval connectionsHeaders_def johnAtOtherCorp_def)
  from contact_id_by_url [OF a b c, of "browser 0" "browser 0"] a b c d e
  show ?thesis by blast
qed

subsection \<open>Saved jobs\<close>



subsection \<open>Thread keys\<close>

lemma split_no_sep: "sep \<notin> set u \<Longrightarrow> split sep u = [u]"
  by (induction u) auto

lemma split_ne: "split sep s \<noteq> []"
  by (induction s) (auto split: list.splits)

lemma split_append_sep: "sep \<notin> set u \<Longrightarrow> split sep (u @ sep # r) = u # split sep r"
  by (induction u) auto

lemma split_join:
  "us \<noteq> [] \<Longrightarrow> \<forall>u \<in> set us. sep \<notin> set u \<Longrightarrow> split sep (join [sep] us) = us"
proof (induction "[sep]" us rule: join.induct)
  case 1
  then show ?case by simp
next
  case (2 x)
  then show ?case by (simp add: split_no_sep)
next
  case (3 x y ys)
  then show ?case by (simp add: split_append_sep)
qed

lemma recipientsOf_join:
  assumes "\<forall>u \<in> set urls. 0x2C \<notin> set u"
  shows "recipientsOf (join (js '','') urls) = filter (\<lambda>url. url \<noteq> []) (map normalizeText urls)"
proof (cases urls)
  case Nil
  then show ?thesis by (simp add: recipientsOf_def normalizeText_def)
next
  case (Cons u us)
  have "js '','' = [0x2C]" by (simp add: js_def)
  with split_join [of urls "0x2C"] assms Cons show ?thesis
    by (simp add: recipientsOf_def)
qed

lemma sort_mset_eq: "mset xs = mset ys \<Longrightarrow> sort xs = sort (ys :: 'a :: linorder list)"
  by (rule properties_for_sort) simp_all

lemma threadIdOf_mset:
  assumes "mset (recipientsOf r') = mset (recipientsOf r)"
  shows "threadIdOf h [] r' toField fromField ts = threadIdOf h [] r toField fromField ts"
proof -
  have len: "length (recipientsOf r') = length (recipientsOf r)"
    using assms by (metis size_mset)
  have srt: "sort (recipientsOf r') = sort (recipientsOf r)"
    using assms by (rule sort_mset_eq)
  have one: "length (recipientsOf r) = 1 \<Longrightarrow> hd (recipientsOf r') = hd (recipientsOf r)"
  proof -
    assume "length (recipientsOf r) = 1"
    with len obtain a b where "recipientsOf r = [a]" "recipientsOf r' = [b]"
      by (metis One_nat_def length_0_conv length_Suc_conv)
    with assms show ?thesis by simp
  qed
  show ?thesis
    using len srt one by (simp add: threadIdOf_def Let_def)
qed

lemma threadIdOf_permutation:
  assumes "mset urls' = mset urls" and "\<forall>u \<in> set urls. 0x2C \<notin> set u"
  shows "threadIdOf h [] (join (js '','') urls') toField fromField ts
         = threadIdOf h [] (join (js '','') urls) toField fromField ts"
proof -
  have "set urls' = set urls" using assms(1) by (metis set_mset_mset)
  with assms(2) have c': "\<forall>u \<in> set urls'. 0x2C \<notin> set u" by simp
  have "mset (filter (\<lambda>url. url \<noteq> []) (map normalizeText urls'))
        = mset (filter (\<lambda>url. url \<noteq> []) (map normalizeText urls))"
    using assms(1) by (metis mset_filter mset_map)
  then show ?thesis
    using recipientsOf_join [OF assms(2)] recipientsOf_join [OF c']
    by (intro threadIdOf_mset) simp
qed

lemma digit_not_T: "(0x30 :: 16 word) + of_int (n mod 10) \<noteq> 0x54"
proof -
  have "0 \<le> n mod 10" and "n mod 10 < 10" by simp_all
  then have "n mod 10 \<in> {0, 1, 2, 3, 4, 5, 6, 7, 8, 9}" by simp arith
  then show ?thesis by (elim insertE emptyE) simp_all
qed

lemma T_notin_digitsN: "0x54 \<notin> set (digitsN w n)"
  by (induction w n rule: digitsN.induct) (simp_all add: digit_not_T)

lemma T_notin_isoDate: "0x54 \<notin> set (isoDate t)"
  by (simp add: isoDate_def isoYear_def T_notin_digitsN js_def split: prod.splits)

lemma dayBucket_of_iso: "hd (split 0x54 (toISOString t)) = isoDate t"
  using split_append_sep [OF T_notin_isoDate, of t "isoTime t @ js ''Z''"]
  by (simp add: toISOString_def js_def)


lemma toISOString_ne: "toISOString t \<noteq> []"
  by (simp add: toISOString_def js_def)

lemma dayBucket_unparsed:
  "date = [] \<or> newDate h (trim (stripUTC date)) = None \<Longrightarrow>
   getDayBucket h (parseTimestamp h date) = js ''unknown''"
  by (auto simp: parseTimestamp_def getDayBucket_def Let_def)

lemma dayBucket_parsed:
  "date \<noteq> [] \<Longrightarrow> newDate h (trim (stripUTC date)) = Some t \<Longrightarrow>
   newDate h (toISOString t) = Some t \<Longrightarrow>
   getDayBucket h (parseTimestamp h date) = isoDate t"
  by (simp add: parseTimestamp_def getDayBucket_def Let_def toISOString_ne dayBucket_of_iso)

text \<open>
  C4: the thread key of a message row is \<open>threadIdOf\<close> of its resolved columns, and
  \<^item> a non-empty conversation identifier is the key itself;
  \<^item> otherwise the recipient column is split on commas, each part normalized and the
    empty parts dropped: one recipient gives the hash of that URL, two or more give the
    hash of the sorted URLs joined by \<open>|\<close>; so the key is the same for every
    permutation of the recipient list, in particular for a,b and b,a;
  \<^item> with no recipient the key is the hash of participant|day-bucket, the participant
    being the "to" field if it is not empty and the "from" field otherwise; the day bucket
    is \<open>unknown\<close> when the date is empty or does not parse, and the UTC calendar date
    \<open>isoDate t\<close> of the parsed instant \<open>t\<close> otherwise (the host parsing the ISO string of
    \<open>t\<close> back to \<open>t\<close>, as ECMAScript requires).
\<close>

theorem thread_key_resolution:
  "(fst (messageOfRow h headers row) = Some m \<longrightarrow>
      threadId m =
        threadIdOf h (getValueByAliases row headers [WholeCI (js ''CONVERSATION ID'')])
          (getValueByAliases row headers [PartCI (js ''RECIPIENT PROFILE URL'')])
          (getValueByAliases row headers [WholeCI (js ''TO'')])
          (getValueByAliases row headers [WholeCI (js ''FROM'')])
          (parseTimestamp h
             (getValueByAliases row headers [WholeCI (js ''DATE''), PartCI (js ''Sent On'')])))
   \<and> (conversationId \<noteq> [] \<longrightarrow>
      threadIdOf h conversationId recipientUrls toField fromField ts = conversationId)
   \<and> (recipientsOf recipientUrls = [url] \<longrightarrow>
      threadIdOf h [] recipientUrls toField fromField ts = stableHash url)
   \<and> (2 \<le> length (recipientsOf recipientUrls) \<longrightarrow>
      threadIdOf h [] recipientUrls toField fromField ts
        = stableHash (join (js ''|'') (sort (recipientsOf recipientUrls))))
   \<and> (mset urls' = mset urls \<and> (\<forall>u \<in> set urls. 0x2C \<notin> set u) \<longrightarrow>
      threadIdOf h [] (join (js '','') urls') toField fromField ts
        = threadIdOf h [] (join (js '','') urls) toField fromField ts)
   \<and> threadIdOf h [] (js ''b,a'') toField fromField ts = threadIdOf h [] (js ''a,b'') toField fromField ts
   \<and> (recipientsOf recipientUrls = [] \<longrightarrow>
      threadIdOf h [] recipientUrls toField fromField ts
        = stableHash ((if toField \<noteq> [] then toField else fromField) @ js ''|'' @ getDayBucket h ts))
   \<and> (date = [] \<or> newDate h (trim (stripUTC date)) = None \<longrightarrow>
      getDayBucket h (parseTimestamp h date) = js ''unknown'')
   \<and> (date \<noteq> [] \<and> newDate h (trim (stripUTC date)) = Some t
        \<and> newDate h (toISOString t) = Some t \<longrightarrow>
      getDayBucket h (parseTimestamp h date) = isoDate t)"
proof -
  have r: "fst (messageOfRow h headers row) = Some m \<longrightarrow>
      threadId m =
        threadIdOf h (getValueByAliases row headers [WholeCI (js ''CONVERSATION ID'')])
          (getValueByAliases row headers [PartCI (js ''RECIPIENT PROFILE URL'')])
          (getValueByAliases row headers [WholeCI (js ''TO'')])
          (getValueByAliases row headers [WholeCI (js ''FROM'')])
          (parseTimestamp h
             (getValueByAliases row headers [WholeCI (js ''DATE''), PartCI (js ''Sent On'')]))"
    by (auto simp: messageOfRow_def Let_def split: if_splits)
  have a: "conversationId \<noteq> [] \<longrightarrow>
      threadIdOf h conversationId recipientUrls toField fromField ts = conversationId"
    by (simp add: threadIdOf_def)
  have b1: "recipientsOf recipientUrls = [url] \<longrightarrow>
      threadIdOf h [] recipientUrls toField fromField ts = stableHash url"
    by (simp add: threadIdOf_def)
  have b2: "2 \<le> length (recipientsOf recipientUrls) \<longrightarrow>
      threadIdOf h [] recipientUrls toField fromField ts
        = stableHash (join (js ''|'') (sort (recipientsOf recipientUrls)))"
    by (simp add: threadIdOf_def Let_def)
  have b3: "mset urls' = mset urls \<and> (\<forall>u \<in> set urls. 0x2C \<notin> set u) \<longrightarrow>
      threadIdOf h [] (join (js '','') urls') toField fromField ts
        = threadIdOf h [] (join (js '','') urls) toField fromField ts"
    using threadIdOf_permutation by blast
  have "threadIdOf h [] (join (js '','') [js ''b'', js ''a'']) toField fromField ts
        = threadIdOf h [] (join (js '','') [js ''a'', js ''b'']) toField fromField ts"
    by (rule threadIdOf_permutation) (simp_all add: js_def)
  then have b4: "threadIdOf h [] (js ''b,a'') toField fromField ts = threadIdOf h [] (js ''a,b'') toField fromField ts"
    by (simp add: js_def)
  have c: "recipientsOf recipientUrls = [] \<longrightarrow>
      threadIdOf h [] recipientUrls toField fromField ts
        = stableHash ((if toField \<noteq> [] then toField else fromField) @ js ''|'' @ getDayBucket h ts)"
    by (simp add: threadIdOf_def Let_def)
  from r a b1 b2 b3 b4 c dayBucket_unparsed [of date h] dayBucket_parsed [of date h t]
  show ?thesis by blast
qed

lemma messageOfRow_admitted:
  "getValueByAliases row headers [WholeCI (js ''CONTENT''), PartCI (js ''Message'')] \<noteq> [] \<Longrightarrow>
   fst (messageOfRow h headers row) \<noteq> None"
  by (simp add: messageOfRow_def Let_def)

theorem thread_key_resolution_witness:
  "threadIdOf (browser 0) (js ''2-abc'') (js ''https://linkedin.com/in/bob'') (js ''Bob'')
     (js ''You'') [] = js ''2-abc''
   \<and> threadIdOf (browser 0) [] (js ''https://linkedin.com/in/bob'') (js ''Bob'') (js ''You'') []
       = stableHash (js ''https://linkedin.com/in/bob'')
   \<and> threadIdOf (browser 0) [] (js ''https://linkedin.com/in/charlie,https://linkedin.com/in/bob'')
       (js ''Bob'') (js ''You'') []
       = stableHash (js ''https://linkedin.com/in/bob|https://linkedin.com/in/charlie'')
   \<and> threadIdOf (browser 0) [] (js ''https://linkedin.com/in/charlie,https://linkedin.com/in/bob'')
       (js ''Bob'') (js ''You'') []
       = threadIdOf (browser 0) [] (js ''https://linkedin.com/in/bob,https://linkedin.com/in/charlie'')
           (js ''Bob'') (js ''You'') []
   \<and> threadId (the (fst (messageOfRow (browser 0) messagesHeaders teamMeeting)))
       = stableHash (js ''https://linkedin.com/in/bob|https://linkedin.com/in/charlie'')
   \<and> threadIdOf (browser 0) [] [] (js ''Bob'') (js ''You'')
       (parseTimestamp (browser 0) (js ''2024-01-20 09:00:00 UTC''))
       = stableHash (js ''Bob|2024-01-20'')
   \<and> threadIdOf (browser 0) [] [] [] (js ''Alice Johnson'')
       (parseTimestamp (browser 0) (js ''last Tuesday''))
       = stableHash (js ''Alice Johnson|unknown'')"
proof -
  let ?b = "js ''https://linkedin.com/in/bob''"
  let ?c = "js ''https://linkedin.com/in/charlie''"
  let ?bc = "js ''https://linkedin.com/in/bob,https://linkedin.com/in/charlie''"
  let ?cb = "js ''https://linkedin.com/in/charlie,https://linkedin.com/in/bob''"
  note T = thread_key_resolution [where h = "browser 0" and toField = "js ''Bob''" and fromField = "js ''You''"]
  have conv: "js ''2-abc'' \<noteq> []" by (simp add: js_def)
  have one: "recipientsOf ?b = [?b]" by code_simp
  have two: "recipientsOf ?cb = [?c, ?b]" by code_simp
  have srt: "join (js ''|'') (sort [?c, ?b]) = js ''https://linkedin.com/in/bob|https://linkedin.com/in/charlie''"
    by code_simp
  have perm: "mset [?c, ?b] = mset [?b, ?c] \<and> (\<forall>u \<in> set [?b, ?c]. 0x2C \<notin> set u)"
    by (simp add: js_def)
  have jcb: "join (js '','') [?c, ?b] = ?cb" and jbc: "join (js '','') [?b, ?c] = ?bc"
    by (simp_all add: js_def)
  have none: "recipientsOf [] = []" by code_simp
  have p1: "js ''2024-01-20 09:00:00 UTC'' \<noteq> []
            \<and> newDate (browser 0) (trim (stripUTC (js ''2024-01-20 09:00:00 UTC''))) = Some 1705741200000
            \<and> newDate (browser 0) (toISOString 1705741200000) = Some 1705741200000"
    by code_simp
  have d1: "isoDate 1705741200000 = js ''2024-01-20''" by code_simp
  have p2: "newDate (browser 0) (trim (stripUTC (js ''last Tuesday''))) = None" by code_simp
  have "getValueByAliases teamMeeting messagesHeaders [WholeCI (js ''CONTENT''), PartCI (js ''Message'')] \<noteq> []"
    by code_simp
  then obtain m where m: "fst (messageOfRow (browser 0) messagesHeaders teamMeeting) = Some m"
    using messageOfRow_admitted by blast
  have cols: "getValueByAliases teamMeeting messagesHeaders [WholeCI (js ''CONVERSATION ID'')] = []
              \<and> getValueByAliases teamMeeting messagesHeaders [PartCI (js ''RECIPIENT PROFILE URL'')] = ?bc"
    by code_simp
  have two': "recipientsOf ?bc = [?b, ?c]" by code_simp
  have srt': "join (js ''|'') (sort [?b, ?c]) = js ''https://linkedin.com/in/bob|https://linkedin.com/in/charlie''"
    by code_simp
  have k1: "threadIdOf (browser 0) (js ''2-abc'') ?b (js ''Bob'') (js ''You'') [] = js ''2-abc''"
    using T [where conversationId = "js ''2-abc''" and recipientUrls = ?b and ts = "[]"] conv by blast
  have k2: "threadIdOf (browser 0) [] ?b (js ''Bob'') (js ''You'') [] = stableHash ?b"
    using T [where recipientUrls = ?b and url = ?b and ts = "[]"] one by blast
  have k3: "threadIdOf (browser 0) [] ?cb (js ''Bob'') (js ''You'') []
            = stableHash (js ''https://linkedin.com/in/bob|https://linkedin.com/in/charlie'')"
    using T [where recipientUrls = ?cb and ts = "[]"] two srt by simp
  have k4: "threadIdOf (browser 0) [] ?cb (js ''Bob'') (js ''You'') []
            = threadIdOf (browser 0) [] ?bc (js ''Bob'') (js ''You'') []"
    using T [where urls' = "[?c, ?b]" and urls = "[?b, ?c]" and ts = "[]"] perm jcb jbc by simp
  have k5: "threadId m = stableHash (js ''https://linkedin.com/in/bob|https://linkedin.com/in/charlie'')"
  proof -
    have "threadId m = threadIdOf (browser 0) [] ?bc
            (getValueByAliases teamMeeting messagesHeaders [WholeCI (js ''TO'')])
            (getValueByAliases teamMeeting messagesHeaders [WholeCI (js ''FROM'')])
            (parseTimestamp (browser 0)
               (getValueByAliases teamMeeting messagesHeaders [WholeCI (js ''DATE''), PartCI (js ''Sent On'')]))"
      using thread_key_resolution [where h = "browser 0" and headers = messagesHeaders
          and row = teamMeeting and m = m] m cols by simp
    also have "\<dots> = stableHash (js ''https://linkedin.com/in/bob|https://linkedin.com/in/charlie'')"
      using thread_key_resolution [where h = "browser 0" and recipientUrls = ?bc] two' srt' by simp
    finally show ?thesis .
  qed
  have k6: "threadIdOf (browser 0) [] [] (js ''Bob'') (js ''You'')
              (parseTimestamp (browser 0) (js ''2024-01-20 09:00:00 UTC''))
            = stableHash (js ''Bob|2024-01-20'')"
  proof -
    have "getDayBucket (browser 0) (parseTimestamp (browser 0) (js ''2024-01-20 09:00:00 UTC''))
          = js ''2024-01-20''"
      using T [where date = "js ''2024-01-20 09:00:00 UTC''" and t = 1705741200000] p1 d1 by simp
    moreover have "js ''Bob'' \<noteq> []" by (simp add: js_def)
    moreover have "js ''Bob'' @ js ''|'' @ js ''2024-01-20'' = js ''Bob|2024-01-20''" by (simp add: js_def)
    ultimately show ?thesis
      using T [where recipientUrls = "[]"
                 and ts = "parseTimestamp (browser 0) (js ''2024-01-20 09:00:00 UTC'')"] none
      by simp
  qed
  have k7: "threadIdOf (browser 0) [] [] [] (js ''Alice Johnson'')
              (parseTimestamp (browser 0) (js ''last Tuesday''))
            = stableHash (js ''Alice Johnson|unknown'')"
  proof -
    have "getDayBucket (browser 0) (parseTimestamp (browser 0) (js ''last Tuesday'')) = js ''unknown''"
      using T [where date = "js ''last Tuesday''"] p2 by simp
    moreover have "js ''Alice Johnson'' @ js ''|'' @ js ''unknown'' = js ''Alice Johnson|unknown''"
      by (simp add: js_def)
    ultimately show ?thesis
      using thread_key_resolution [where h = "browser 0" and toField = "[]" and fromField = "js ''Alice Johnson''"
                 and recipientUrls = "[]"
                 and ts = "parseTimestamp (browser 0) (js ''last Tuesday'')"] none
      by simp
  qed
  from k1 k2 k3 k4 k5 k6 k7 m show ?thesis by simp
qed

subsection \<open>Text normalization\<close>

lemma dropWhile_id: "s = [] \<or> \<not> P (hd s) \<Longrightarrow> dropWhile P s = s"
  by (cases s) auto

lemma trimEnd_id: "s = [] \<or> \<not> isWhiteSpace (last s) \<Longrightarrow> trimEnd s = s"
  by (cases "rev s") (auto simp: trimEnd_def last_rev [symmetric] simp del: last_rev)

lemma trim_id:
  "s = [] \<or> (\<not> isWhiteSpace (hd s) \<and> \<not> isWhiteSpace (last s)) \<Longrightarrow> trim s = s"
  by (auto simp: trim_def dropWhile_id trimEnd_id)

lemma trimEnd_prefix: "\<exists>r. s = trimEnd s @ r"
proof -
  have "s = rev (takeWhile isWhiteSpace (rev s) @ dropWhile isWhiteSpace (rev s))" by simp
  then have "s = trimEnd s @ rev (takeWhile isWhiteSpace (rev s))"
    unfolding trimEnd_def rev_append .
  then show ?thesis ..
qed

lemma trimEnd_last: "trimEnd s \<noteq> [] \<Longrightarrow> \<not> isWhiteSpace (last (trimEnd s))"
  using hd_dropWhile [of isWhiteSpace "rev s"] by (simp add: trimEnd_def last_rev)

lemma trimEnd_hd: "trimEnd s \<noteq> [] \<Longrightarrow> hd (trimEnd s) = hd s"
  using trimEnd_prefix [of s] by (metis hd_append2)

lemma trim_ends:
  assumes "trim s \<noteq> []"
  shows "\<not> isWhiteSpace (hd (trim s))" and "\<not> isWhiteSpace (last (trim s))"
proof -
  let ?d = "dropWhile isWhiteSpace s"
  have ne: "?d \<noteq> []"
    using assms by (cases "?d = []") (simp_all add: trim_def trimEnd_def)
  have "hd (trim s) = hd ?d" using assms trimEnd_hd [of ?d] by (simp add: trim_def)
  then show "\<not> isWhiteSpace (hd (trim s))" using hd_dropWhile [OF ne] by simp
  show "\<not> isWhiteSpace (last (trim s))" using assms trimEnd_last [of ?d] by (simp add: trim_def)
qed

lemma collapse_hd:
  "s \<noteq> [] \<Longrightarrow> \<not> isWhiteSpace (hd s) \<Longrightarrow>
   collapseSpaces s \<noteq> [] \<and> hd (collapseSpaces s) = hd s"
  by (cases s) auto

lemma collapse_no_leading:
  "d = [] \<or> \<not> isWhiteSpace (hd d) \<Longrightarrow>
   collapseSpaces d = [] \<or> \<not> isWhiteSpace (hd (collapseSpaces d))"
  by (cases d) auto

lemma dropWhile_last:
  "s \<noteq> [] \<Longrightarrow> \<not> P (last s) \<Longrightarrow> dropWhile P s \<noteq> [] \<and> last (dropWhile P s) = last s"
  by (induction s) (auto split: if_splits)

lemma collapse_last:
  "s \<noteq> [] \<Longrightarrow> \<not> isWhiteSpace (last s) \<Longrightarrow>
   collapseSpaces s \<noteq> [] \<and> last (collapseSpaces s) = last s"
proof (induction s rule: collapseSpaces.induct)
  case 1
  then show ?case by simp
next
  case (2 c cs)
  show ?case
  proof (cases "isWhiteSpace c")
    case True
    with "2.prems" have cs: "cs \<noteq> []" "\<not> isWhiteSpace (last cs)" by (auto split: if_splits)
    from dropWhile_last [where P = isWhiteSpace, OF cs] "2.IH"(1) [OF True] cs True show ?thesis by simp
  next
    case False
    show ?thesis
    proof (cases "cs = []")
      case True
      with False show ?thesis by simp
    next
      case ne: False
      with "2.prems" have "\<not> isWhiteSpace (last cs)" by simp
      from "2.IH"(2) [OF False ne this] False ne show ?thesis by simp
    qed
  qed
qed

lemma collapse_idem: "collapseSpaces (collapseSpaces s) = collapseSpaces s"
proof (induction s rule: collapseSpaces.induct)
  case 1
  then show ?case by simp
next
  case (2 c cs)
  show ?case
  proof (cases "isWhiteSpace c")
    case True
    let ?d = "dropWhile isWhiteSpace cs"
    have sp: "isWhiteSpace 0x20" by (simp add: isWhiteSpace_def)
    have "?d = [] \<or> \<not> isWhiteSpace (hd ?d)" using hd_dropWhile [of isWhiteSpace cs] by blast
    then have "collapseSpaces ?d = [] \<or> \<not> isWhiteSpace (hd (collapseSpaces ?d))"
      by (rule collapse_no_leading)
    then have "dropWhile isWhiteSpace (collapseSpaces ?d) = collapseSpaces ?d"
      by (rule dropWhile_id)
    with "2.IH"(1) [OF True] True sp show ?thesis by simp
  next
    case False
    with "2.IH"(2) show ?thesis by simp
  qed
qed

lemma collapse_append:
  "a \<noteq> [] \<Longrightarrow> \<not> isWhiteSpace (last a) \<Longrightarrow>
   collapseSpaces (a @ b) = collapseSpaces a @ collapseSpaces b"
proof (induction a rule: collapseSpaces.induct)
  case 1
  then show ?case by simp
next
  case (2 c cs)
  show ?case
  proof (cases "isWhiteSpace c")
    case True
    with "2.prems" have cs: "cs \<noteq> []" "\<not> isWhiteSpace (last cs)" by (auto split: if_splits)
    then have "\<exists>x \<in> set cs. \<not> isWhiteSpace x" using last_in_set by blast
    then have "dropWhile isWhiteSpace (cs @ b) = dropWhile isWhiteSpace cs @ b"
      by (auto simp: dropWhile_append1)
    moreover have "collapseSpaces (dropWhile isWhiteSpace cs @ b)
        = collapseSpaces (dropWhile isWhiteSpace cs) @ collapseSpaces b"
      using dropWhile_last [where P = isWhiteSpace, OF cs] "2.IH"(1) [OF True] cs by metis
    ultimately show ?thesis using True by simp
  next
    case False
    show ?thesis
    proof (cases "cs = []")
      case True
      with False show ?thesis by simp
    next
      case ne: False
      with "2.prems" have "\<not> isWhiteSpace (last cs)" by simp
      from "2.IH"(2) [OF False ne this] False show ?thesis by simp
    qed
  qed
qed

text \<open>What \<open>normalizeText\<close> returns has no white space at either end.\<close>

lemma normalizeText_ends:
  assumes "normalizeText s \<noteq> []"
  shows "\<not> isWhiteSpace (hd (normalizeText s))" and "\<not> isWhiteSpace (last (normalizeText s))"
proof -
  let ?u = "trim (removeBOM s)"
  have n: "normalizeText s = collapseSpaces ?u" and u: "?u \<noteq> []"
    using assms by (auto simp: normalizeText_def split: if_splits)
  from trim_ends [OF u] collapse_hd [OF u] collapse_last [OF u] n
  show "\<not> isWhiteSpace (hd (normalizeText s))" and "\<not> isWhiteSpace (last (normalizeText s))"
    by simp_all
qed

lemma removeBOM_id: "s = [] \<or> \<not> isWhiteSpace (hd s) \<Longrightarrow> removeBOM s = s"
  by (cases s) (auto simp: isWhiteSpace_def)

text \<open>A string without white space at its ends is normalized when collapsing leaves it.\<close>

lemma normalizeText_fixed:
  assumes "s = [] \<or> (\<not> isWhiteSpace (hd s) \<and> \<not> isWhiteSpace (last s))"
    and "collapseSpaces s = s"
  shows "normalizeText s = s"
  using assms by (auto simp: normalizeText_def removeBOM_id trim_id)

lemma collapse_normalizeText: "collapseSpaces (normalizeText s) = normalizeText s"
  by (simp add: normalizeText_def collapse_idem)

lemma normalizeText_idem: "normalizeText (normalizeText s) = normalizeText s"
proof (cases "normalizeText s = []")
  case True
  then show ?thesis by (simp add: normalizeText_def)
next
  case False
  with normalizeText_ends [OF False] collapse_normalizeText [of s] show ?thesis
    by (intro normalizeText_fixed) simp_all
qed

lemma collapse_no_runs:
  "successively (\<lambda>a b. \<not> (isWhiteSpace a \<and> isWhiteSpace b)) (collapseSpaces s)"
proof (induction s rule: collapseSpaces.induct)
  case 1
  then show ?case by simp
next
  case (2 c cs)
  show ?case
  proof (cases "isWhiteSpace c")
    case True
    let ?d = "dropWhile isWhiteSpace cs"
    have "?d = [] \<or> \<not> isWhiteSpace (hd ?d)" using hd_dropWhile [of isWhiteSpace cs] by blast
    then have "collapseSpaces ?d = [] \<or> \<not> isWhiteSpace (hd (collapseSpaces ?d))"
      by (rule collapse_no_leading)
    with "2.IH"(1) [OF True] True show ?thesis by (auto simp: successively_Cons)
  next
    case False
    with "2.IH"(2) show ?thesis by (auto simp: successively_Cons)
  qed
qed

lemma collapse_only_spaces:
  "x \<in> set (collapseSpaces s) \<Longrightarrow> isWhiteSpace x \<Longrightarrow> x = 0x20"
  by (induction s rule: collapseSpaces.induct) (auto split: if_splits)

text \<open>The shape of a normalized string.\<close>

lemma normalizeText_shape:
  "(normalizeText s \<noteq> [] \<longrightarrow>
      hd (normalizeText s) \<noteq> 0xFEFF \<and> \<not> isWhiteSpace (hd (normalizeText s))
      \<and> \<not> isWhiteSpace (last (normalizeText s)))
   \<and> successively (\<lambda>a b. \<not> (isWhiteSpace a \<and> isWhiteSpace b)) (normalizeText s)
   \<and> (\<forall>x \<in> set (normalizeText s). isWhiteSpace x \<longrightarrow> x = 0x20)"
proof -
  have bom: "isWhiteSpace 0xFEFF" by (simp add: isWhiteSpace_def)
  have "normalizeText s \<noteq> [] \<longrightarrow> hd (normalizeText s) \<noteq> 0xFEFF"
    using normalizeText_ends(1) [of s] bom by auto
  moreover have "successively (\<lambda>a b. \<not> (isWhiteSpace a \<and> isWhiteSpace b)) (normalizeText s)"
    using collapse_no_runs by (simp add: normalizeText_def)
  moreover have "\<forall>x \<in> set (normalizeText s). isWhiteSpace x \<longrightarrow> x = 0x20"
    using collapse_only_spaces by (auto simp: normalizeText_def split: if_splits)
  ultimately show ?thesis using normalizeText_ends [of s] by blast
qed

lemma getValueByAliases_normalized:
  "normalizeText (getValueByAliases row headers aliases) = getValueByAliases row headers aliases"
proof -
  have "normalizeText [] = []" by (simp add: normalizeText_def)
  then show ?thesis
    by (simp add: getValueByAliases_def normalizeText_idem split: option.splits)
qed

lemma normalized_tidy:
  assumes "normalizeText x = x"
  shows "(x = [] \<or> (\<not> isWhiteSpace (hd x) \<and> \<not> isWhiteSpace (last x))) \<and> collapseSpaces x = x"
  using normalizeText_ends [of x] collapse_normalizeText [of x] assms by auto

lemma normalizeText_Unknown: "normalizeText (js ''Unknown'') = js ''Unknown''"
  by (simp add: normalizeText_def trim_def trimEnd_def isWhiteSpace_def js_def)

text \<open>The display name of a contact: \<open>`${firstName} ${lastName}`.trim() || 'Unknown'\<close>.\<close>

lemma normalizeText_name:
  assumes f: "normalizeText f = f" and l: "normalizeText l = l"
  shows "normalizeText (if trim (f @ js '' '' @ l) \<noteq> [] then trim (f @ js '' '' @ l)
                        else js ''Unknown'')
         = (if trim (f @ js '' '' @ l) \<noteq> [] then trim (f @ js '' '' @ l) else js ''Unknown'')"
proof -
  have sp: "js '' '' = [0x20]" "isWhiteSpace 0x20" by (simp_all add: js_def isWhiteSpace_def)
  note tf = normalized_tidy [OF f] and tl = normalized_tidy [OF l]
  consider (none) "f = []" "l = []" | (last) "f = []" "l \<noteq> []"
    | (first) "f \<noteq> []" "l = []" | (both) "f \<noteq> []" "l \<noteq> []"
    by blast
  then show ?thesis
  proof cases
    case none
    then have "trim (f @ js '' '' @ l) = []" using sp by (simp add: trim_def trimEnd_def)
    then show ?thesis by (simp add: normalizeText_Unknown)
  next
    case last
    with tl have "dropWhile isWhiteSpace l = l" "trimEnd l = l"
      by (simp_all add: dropWhile_id trimEnd_id)
    with last sp have "trim (f @ js '' '' @ l) = l" by (simp add: trim_def)
    with l last show ?thesis by simp
  next
    case first
    with tf have h: "\<not> isWhiteSpace (hd f)" and e: "trimEnd f = f"
      by (simp_all add: trimEnd_id)
    from first h have "dropWhile isWhiteSpace (f @ [0x20]) = f @ [0x20]"
      by (intro dropWhile_id) simp
    moreover have "trimEnd (f @ [0x20]) = trimEnd f" using sp by (simp add: trimEnd_def)
    ultimately have "trim (f @ js '' '' @ l) = f" using first sp e by (simp add: trim_def)
    with f first show ?thesis by simp
  next
    case both
    let ?t = "f @ 0x20 # l"
    from both tf tl have ends: "\<not> isWhiteSpace (hd ?t) \<and> \<not> isWhiteSpace (last ?t)" by simp
    have "collapseSpaces ?t = collapseSpaces f @ collapseSpaces (0x20 # l)"
      using both tf by (intro collapse_append) simp_all
    also have "collapseSpaces (0x20 # l) = 0x20 # collapseSpaces (dropWhile isWhiteSpace l)"
      using sp by simp
    also have "dropWhile isWhiteSpace l = l" using tl by (intro dropWhile_id) auto
    finally have c: "collapseSpaces ?t = ?t" using tf tl by simp
    from ends have "trim ?t = ?t" by (intro trim_id) simp
    moreover from ends c have "normalizeText ?t = ?t" by (intro normalizeText_fixed) simp_all
    ultimately show ?thesis using sp by simp
  qed
qed

lemma orUndefined_normalized:
  "orUndefined (getValueByAliases row headers aliases) = Some x \<Longrightarrow> normalizeText x = x"
  using getValueByAliases_normalized [of row headers aliases]
  by (auto simp: orUndefined_def split: if_splits)

text \<open>
  C10: \<open>normalizeText\<close> is idempotent, and what it returns has no leading byte-order
  mark, no white space at either end, no two adjacent white-space characters, and no
  white-space character other than the space. Every string field of a record built
  from a row is a fixed point of \<open>normalizeText\<close>: the name, company, title and
  location of a contact, the body of a message, the counterpart name of an invite, the
  company of a follow, and the company and title of a saved job.
\<close>

theorem normalizeText_fixed_points:
  "normalizeText (normalizeText s) = normalizeText s
   \<and> (normalizeText s \<noteq> [] \<longrightarrow>
        hd (normalizeText s) \<noteq> 0xFEFF \<and> \<not> isWhiteSpace (hd (normalizeText s))
        \<and> \<not> isWhiteSpace (last (normalizeText s)))
   \<and> successively (\<lambda>a b. \<not> (isWhiteSpace a \<and> isWhiteSpace b)) (normalizeText s)
   \<and> normalizeText (contact_name (fst (contactOfRow h headers row)))
       = contact_name (fst (contactOfRow h headers row))
   \<and> (contact_company (fst (contactOfRow h headers row)) = Some x
        \<or> contact_title (fst (contactOfRow h headers row)) = Some x
        \<or> contact_location (fst (contactOfRow h headers row)) = Some x \<longrightarrow>
        normalizeText x = x)
   \<and> (fst (messageOfRow h headers row) = Some m \<longrightarrow> normalizeText (body m) = body m)
   \<and> (fst (inviteOfRow h headers row) = Some i \<longrightarrow>
        normalizeText (counterpartName i) = counterpartName i)
   \<and> (fst (followOfRow h headers row) = Some f \<longrightarrow>
        normalizeText (follow_company f) = follow_company f)
   \<and> (fst (jobOfRow h isApplications headers row) = Some j \<longrightarrow>
        normalizeText (job_company j) = job_company j
        \<and> normalizeText (job_title j) = job_title j)"
proof -
  note g = getValueByAliases_normalized
  have name: "normalizeText (contact_name (fst (contactOfRow h headers row)))
              = contact_name (fst (contactOfRow h headers row))"
    using normalizeText_name [OF g g] by (simp add: contactOfRow_def Let_def)
  have opt: "contact_company (fst (contactOfRow h headers row)) = Some x
        \<or> contact_title (fst (contactOfRow h headers row)) = Some x
        \<or> contact_location (fst (contactOfRow h headers row)) = Some x \<longrightarrow>
        normalizeText x = x"
    using orUndefined_normalized by (auto simp: contactOfRow_def Let_def)
  have msg: "fst (messageOfRow h headers row) = Some m \<longrightarrow> normalizeText (body m) = body m"
    using g by (auto simp: messageOfRow_def Let_def split: if_splits)
  have inv: "fst (inviteOfRow h headers row) = Some i \<longrightarrow>
        normalizeText (counterpartName i) = counterpartName i"
    using g by (auto simp: inviteOfRow_def Let_def split: if_splits)
  have fol: "fst (followOfRow h headers row) = Some f \<longrightarrow>
        normalizeText (follow_company f) = follow_company f"
    using g by (auto simp: followOfRow_def Let_def split: if_splits)
  have job: "fst (jobOfRow h isApplications headers row) = Some j \<longrightarrow>
        normalizeText (job_company j) = job_company j
        \<and> normalizeText (job_title j) = job_title j"
    using g normalizeText_Unknown by (auto simp: jobOfRow_def Let_def split: if_splits)
  from normalizeText_idem [of s] normalizeText_shape [of s] name opt msg inv fol job
  show ?thesis by blast
qed

lemma inviteOfRow_admitted:
  "getValueByAliases row headers (lits [''To'']) \<noteq> [] \<Longrightarrow>
   fst (inviteOfRow h headers row) \<noteq> None"
  by (simp add: inviteOfRow_def Let_def)

lemma followOfRow_admitted:
  "getValueByAliases row headers (lits [''Organization'', ''Company'']) \<noteq> [] \<Longrightarrow>
   fst (followOfRow h headers row) \<noteq> None"
  by (simp add: followOfRow_def Let_def)

lemma jobOfRow_admitted:
  "getValueByAliases row headers (lits [''Title'', ''Job Title'']) \<noteq> [] \<Longrightarrow>
   fst (jobOfRow h isApplications headers row) \<noteq> None"
  by (simp add: jobOfRow_def Let_def)

theorem normalizeText_fixed_points_witness:
  "normalizeText (0xFEFF # js ''  John   Doe '') = js ''John Doe''
   \<and> normalizeText (normalizeText (0xFEFF # js ''  John   Doe ''))
       = normalizeText (0xFEFF # js ''  John   Doe '')
   \<and> hd (normalizeText (0xFEFF # js ''  John   Doe '')) \<noteq> 0xFEFF
   \<and> contact_company (fst (contactOfRow (browser 0) connectionsHeaders johnAtTestCorp))
       = Some (js ''TestCorp'')
   \<and> normalizeText (js ''TestCorp'') = js ''TestCorp''
   \<and> fst (messageOfRow (browser 0) messagesHeaders teamMeeting) \<noteq> None
   \<and> normalizeText (body (the (fst (messageOfRow (browser 0) messagesHeaders teamMeeting))))
       = body (the (fst (messageOfRow (browser 0) messagesHeaders teamMeeting)))
   \<and> fst (inviteOfRow (browser 0) invitationsHeaders sarahInvite) \<noteq> None
   \<and> normalizeText
         (counterpartName (the (fst (inviteOfRow (browser 0) invitationsHeaders sarahInvite))))
       = counterpartName (the (fst (inviteOfRow (browser 0) invitationsHeaders sarahInvite)))
   \<and> fst (followOfRow (browser 0) followsHeaders acmeFollow) \<noteq> None
   \<and> normalizeText (follow_company (the (fst (followOfRow (browser 0) followsHeaders acmeFollow))))
       = follow_company (the (fst (followOfRow (browser 0) followsHeaders acmeFollow)))
   \<and> fst (jobOfRow (browser 0) False jobsHeaders jobWithoutCompany) \<noteq> None
   \<and> normalizeText
         (job_company (the (fst (jobOfRow (browser 0) False jobsHeaders jobWithoutCompany))))
       = job_company (the (fst (jobOfRow (browser 0) False jobsHeaders jobWithoutCompany)))"
proof -
  note T = normalizeText_fixed_points [where h = "browser 0"]
  have s: "normalizeText (0xFEFF # js ''  John   Doe '') = js ''John Doe''" by code_simp
  have sne: "normalizeText (0xFEFF # js ''  John   Doe '') \<noteq> []" by code_simp
  have company:
    "contact_company (fst (contactOfRow (browser 0) connectionsHeaders johnAtTestCorp))
       = Some (js ''TestCorp'')"
  proof -
    have "getValueByAliases johnAtTestCorp connectionsHeaders (lits [''Company'', ''Company Name''])
            = js ''TestCorp''"
      by code_simp
    moreover have "js ''TestCorp'' \<noteq> []" by (simp add: js_def)
    ultimately show ?thesis by (simp add: contactOfRow_def Let_def orUndefined_def)
  qed
  have "getValueByAliases teamMeeting messagesHeaders
          [WholeCI (js ''CONTENT''), PartCI (js ''Message'')] \<noteq> []"
    by code_simp
  then have m: "fst (messageOfRow (browser 0) messagesHeaders teamMeeting) \<noteq> None"
    by (rule messageOfRow_admitted)
  have "getValueByAliases sarahInvite invitationsHeaders (lits [''To'']) \<noteq> []" by code_simp
  then have i: "fst (inviteOfRow (browser 0) invitationsHeaders sarahInvite) \<noteq> None"
    by (rule inviteOfRow_admitted)
  have "getValueByAliases acmeFollow followsHeaders (lits [''Organization'', ''Company'']) \<noteq> []"
    by code_simp
  then have f: "fst (followOfRow (browser 0) followsHeaders acmeFollow) \<noteq> None"
    by (rule followOfRow_admitted)
  have "getValueByAliases jobWithoutCompany jobsHeaders (lits [''Title'', ''Job Title'']) \<noteq> []"
    by code_simp
  then have j: "fst (jobOfRow (browser 0) False jobsHeaders jobWithoutCompany) \<noteq> None"
    by (rule jobOfRow_admitted)
  from T [where s = "0xFEFF # js ''  John   Doe ''"] sne
  have k1: "normalizeText (normalizeText (0xFEFF # js ''  John   Doe ''))
              = normalizeText (0xFEFF # js ''  John   Doe '')"
    and k2: "hd (normalizeText (0xFEFF # js ''  John   Doe '')) \<noteq> 0xFEFF"
    by blast+
  from T [where headers = connectionsHeaders and row = johnAtTestCorp and x = "js ''TestCorp''"]
    company
  have k3: "normalizeText (js ''TestCorp'') = js ''TestCorp''" by blast
  from m T [where headers = messagesHeaders and row = teamMeeting
              and m = "the (fst (messageOfRow (browser 0) messagesHeaders teamMeeting))"]
  have k4: "normalizeText (body (the (fst (messageOfRow (browser 0) messagesHeaders teamMeeting))))
       = body (the (fst (messageOfRow (browser 0) messagesHeaders teamMeeting)))"
    by auto
  from i T [where headers = invitationsHeaders and row = sarahInvite
              and i = "the (fst (inviteOfRow (browser 0) invitationsHeaders sarahInvite))"]
  have k5: "normalizeText
         (counterpartName (the (fst (inviteOfRow (browser 0) invitationsHeaders sarahInvite))))
       = counterpartName (the (fst (inviteOfRow (browser 0) invitationsHeaders sarahInvite)))"
    by auto
  from f T [where headers = followsHeaders and row = acmeFollow
              and f = "the (fst (followOfRow (browser 0) followsHeaders acmeFollow))"]
  have k6: "normalizeText (follow_company (the (fst (followOfRow (browser 0) followsHeaders acmeFollow))))
       = follow_company (the (fst (followOfRow (browser 0) followsHeaders acmeFollow)))"
    by auto
  from j T [where headers = jobsHeaders and row = jobWithoutCompany and isApplications = False
              and j = "the (fst (jobOfRow (browser 0) False jobsHeaders jobWithoutCompany))"]
  have k7: "normalizeText
         (job_company (the (fst (jobOfRow (browser 0) False jobsHeaders jobWithoutCompany))))
       = job_company (the (fst (jobOfRow (browser 0) False jobsHeaders jobWithoutCompany)))"
    by auto
  from s k1 k2 company k3 m k4 i k5 f k6 j k7 show ?thesis by blast
qed

subsection \<open>Timestamps\<close>

text \<open>
  C6 (the code departs from the claim): the zone designator is removed before the text
  reaches the date parser, so the instant is the one the host gives to a date and time
  without zone. A host two hours east of UTC that reads such a text as local time
  returns 08:00Z for 2024-01-02 10:00:00 UTC; only on a host in UTC is the result the
  moment 10:00Z. The empty string gives the empty string on every host.
\<close>

theorem parseTimestamp_drops_zone:
  "parseTimestamp (browser 120) (js ''2024-01-02 10:00:00 UTC'') = js ''2024-01-02T08:00:00.000Z''
   \<and> parseTimestamp (browser 0) (js ''2024-01-02 10:00:00 UTC'') = js ''2024-01-02T10:00:00.000Z''
   \<and> parseTimestamp h (js ''2024-01-02 10:00:00 UTC'')
       = parseTimestamp h (js ''2024-01-02 10:00:00'')
   \<and> parseTimestamp h [] = []"
proof -
  have a: "parseTimestamp (browser 120) (js ''2024-01-02 10:00:00 UTC'')
             = js ''2024-01-02T08:00:00.000Z''"
    by code_simp
  have b: "parseTimestamp (browser 0) (js ''2024-01-02 10:00:00 UTC'')
             = js ''2024-01-02T10:00:00.000Z''"
    by code_simp
  have "trim (stripUTC (js ''2024-01-02 10:00:00 UTC'')) = js ''2024-01-02 10:00:00''"
    by code_simp
  moreover have "trim (stripUTC (js ''2024-01-02 10:00:00'')) = js ''2024-01-02 10:00:00''"
    by code_simp
  ultimately have c: "parseTimestamp h (js ''2024-01-02 10:00:00 UTC'')
                        = parseTimestamp h (js ''2024-01-02 10:00:00'')"
    by (simp add: parseTimestamp_def js_def)
  have d: "parseTimestamp h [] = []" by (simp add: parseTimestamp_def)
  from a b c d show ?thesis by blast
qed

subsection \<open>The normalizers, file by file\<close>

lemma messageOfRow_body:
  "map_option body (fst (messageOfRow h headers row)) =
     (let content = getValueByAliases row headers
                      [WholeCI (js ''CONTENT''), PartCI (js ''Message'')]
      in if content = [] then None else Some content)"
  by (simp add: messageOfRow_def Let_def)

lemma map_filter_bodies:
  "map body (List.map_filter fst (map (messageOfRow h headers) dataRows)) =
     filter (\<lambda>content. content \<noteq> [])
       (map (\<lambda>row. getValueByAliases row headers
                      [WholeCI (js ''CONTENT''), PartCI (js ''Message'')]) dataRows)"
proof (induction dataRows)
  case Nil
  then show ?case by (simp add: List.map_filter_simps)
next
  case (Cons row dataRows)
  from messageOfRow_body [of h headers row] Cons show ?case
    by (cases "fst (messageOfRow h headers row)")
       (auto simp: List.map_filter_simps Let_def split: if_splits)
qed

text \<open>The messages of a file are its data rows with a non-empty content, in order.\<close>

lemma processMessages_bodies:
  "2 \<le> length rawData \<Longrightarrow>
   map body (fst (processMessages h rawData ws fileName)) =
     filter (\<lambda>content. content \<noteq> [])
       (map (\<lambda>row. getValueByAliases row (map normalizeText (hd rawData))
                      [WholeCI (js ''CONTENT''), PartCI (js ''Message'')])
          (filter nonEmptyRow (drop 1 rawData)))"
  by (simp add: processMessages_def Let_def map_filter_bodies)

text \<open>Every data row of a Connections file gives a contact; their names, in order.\<close>

lemma processConnections_names:
  "map contact_name (fst (processConnections h rawData ws fileName)) =
     (case findFirstNameRow rawData of
        None \<Rightarrow> []
      | Some i \<Rightarrow>
          map (\<lambda>row.
                 let trimmed =
                       trim (getValueByAliases row (map normalizeText (rawData ! i))
                               (lits [''First Name''])
                             @ js '' ''
                             @ getValueByAliases row (map normalizeText (rawData ! i))
                                 (lits [''Last Name'']))
                 in if trimmed \<noteq> [] then trimmed else js ''Unknown'')
            (filter nonEmptyRow (drop (i + 1) rawData)))"
  by (simp add: processConnections_def contactOfRow_def Let_def comp_def split: option.splits)

subsection \<open>The header row\<close>

text \<open>
  C7 (the code departs from the claim): only \<open>processConnections\<close> scans for its header
  row. The other normalizers take row 0 as the header whatever it holds, against the
  "Smart Preface Skipping: Automatically finds header rows for all file types" of
  PARSER_README. A messages table with one note row before its header gives no message
  and no warning about a missing header; without the note row it gives the message.
\<close>

theorem processMessages_takes_row_0:
  "processMessages (browser 0) messagesWithPreamble [] (js ''messages.csv'') =
     ([], [js ''Messages: Detected headers: Notes: | exported for you'',
           js ''Messages: 2 data rows found in messages.csv'',
           js ''Messages: 0 messages processed from messages.csv''])
   \<and> map body (fst (processMessages (browser 0) (drop 1 messagesWithPreamble) []
                       (js ''messages.csv''))) = [js ''Hello'']"
proof -
  have a: "processMessages (browser 0) messagesWithPreamble [] (js ''messages.csv'') =
     ([], [js ''Messages: Detected headers: Notes: | exported for you'',
           js ''Messages: 2 data rows found in messages.csv'',
           js ''Messages: 0 messages processed from messages.csv''])"
    by code_simp
  have l: "2 \<le> length (drop 1 messagesWithPreamble)" by code_simp
  have "filter (\<lambda>content. content \<noteq> [])
          (map (\<lambda>row. getValueByAliases row (map normalizeText (hd (drop 1 messagesWithPreamble)))
                         [WholeCI (js ''CONTENT''), PartCI (js ''Message'')])
             (filter nonEmptyRow (drop 1 (drop 1 messagesWithPreamble)))) = [js ''Hello'']"
    by code_simp
  with processMessages_bodies [OF l, of "browser 0" "[]" "js ''messages.csv''"] a
  show ?thesis by simp
qed

subsection \<open>The handler, file by file\<close>

lemma processFile_csv:
  assumes "\<not> isAuxiliaryMessages h (pending_name fd)"
    and "fileTypeOf (toLowerCase h (pending_name fd)) = Some t"
    and "endsWith (toLowerCase h (pending_name fd)) (js ''.csv'')"
  shows "processFile h p fd = dispatch h p fd t (parseCSV (pending_content fd))"
  using assms by (simp add: processFile_def Let_def)

lemma dispatch_filesProcessed:
  "filesProcessed (summary (dispatch h p fd t data)) =
     filesProcessed (summary p) @ [label t @ js '' ('' @ pending_originalName fd @ js '')'']"
  by (simp add: dispatch_def Let_def setWarnings_def split: fileType.splits prod.splits)

lemma dispatch_rows:
  "rows (summary (dispatch h p fd t data)) = setProperty (label t) (length data) (rows (summary p))"
  by (simp add: dispatch_def Let_def setWarnings_def split: fileType.splits prod.splits)

text \<open>
  The result of \<open>processConnections\<close> is assigned to \<open>payload.contacts\<close>, and that of
  \<open>processMessages\<close> to \<open>payload.messages\<close>: what the payload held before is gone.
\<close>

lemma dispatch_Connections:
  "contacts (dispatch h p fd Connections data) =
     fst (processConnections h data (warnings (summary p)) (pending_name fd))"
  by (simp add: dispatch_def Let_def setWarnings_def split: prod.splits)

lemma dispatch_Messages:
  "messages (dispatch h p fd Messages data) =
     fst (processMessages h data (warnings (summary p)) (pending_name fd))"
  by (simp add: dispatch_def Let_def setWarnings_def split: prod.splits)

lemma handler_two:
  assumes "gatherFile h f = ([a], wa)" and "gatherFile h g = ([b], wb)"
  shows "handler h [f, g] =
           processFile h (processFile h (setWarnings (wa @ wb) emptyPayload) a) b"
  using assms by (simp add: handler_def)

lemma handler_one:
  assumes "gatherFile h f = ([a], wa)"
  shows "handler h [f] = processFile h (setWarnings wa emptyPayload) a"
  using assms by (simp add: handler_def)

lemma handler_none:
  assumes "gatherFile h f = ([], wa)"
  shows "handler h [f] = setWarnings wa emptyPayload"
  using assms by (simp add: handler_def)

subsection \<open>Accumulation\<close>

text \<open>
  C5 (the code departs from the claim): the records of saved jobs accumulate
  (\<open>payload.savedJobs.push\<close>), but the other four normalizers are assigned, and the row
  count of a label is assigned too. With two Connections files in one invocation, of
  one and of two data rows, the payload holds the two contacts of the second file only,
  and the row count of Connections is that of the second file, header row included.
\<close>

theorem handler_overwrites_contacts:
  "map contact_name (contacts (handler (browser 0) [connectionsA, connectionsB]))
     = [js ''Jane Smith'', js ''Bob Stone'']
   \<and> rows (summary (handler (browser 0) [connectionsA, connectionsB]))
     = [(js ''Connections'', 3)]
   \<and> filesProcessed (summary (handler (browser 0) [connectionsA, connectionsB]))
     = [js ''Connections (Connections.csv)'', js ''Connections (Connections (1).csv)'']
   \<and> map contact_name (contacts (handler (browser 0) [connectionsA])) = [js ''John Doe'']"
proof -
  define a where
    "a = \<lparr>pending_name = js ''Connections.csv'',
           pending_content = csvBlob [connectionsHeaders, johnAtTestCorp],
           pending_originalName = js ''Connections.csv''\<rparr>"
  define b where
    "b = \<lparr>pending_name = js ''Connections (1).csv'', pending_content = csvBlob secondTable,
           pending_originalName = js ''Connections (1).csv''\<rparr>"
  have ga: "gatherFile (browser 0) connectionsA = ([a], [])" unfolding a_def by code_simp
  have gb: "gatherFile (browser 0) connectionsB = ([b], [])" unfolding b_def by code_simp
  have ca: "\<not> isAuxiliaryMessages (browser 0) (pending_name a)"
    "fileTypeOf (toLowerCase (browser 0) (pending_name a)) = Some Connections"
    "endsWith (toLowerCase (browser 0) (pending_name a)) (js ''.csv'')"
    unfolding a_def by code_simp+
  have cb: "\<not> isAuxiliaryMessages (browser 0) (pending_name b)"
    "fileTypeOf (toLowerCase (browser 0) (pending_name b)) = Some Connections"
    "endsWith (toLowerCase (browser 0) (pending_name b)) (js ''.csv'')"
    unfolding b_def by code_simp+
  note pa = processFile_csv [OF ca] and pb = processFile_csv [OF cb]
  have two: "handler (browser 0) [connectionsA, connectionsB] =
      dispatch (browser 0)
        (dispatch (browser 0) (setWarnings [] emptyPayload) a Connections
           (parseCSV (pending_content a)))
        b Connections (parseCSV (pending_content b))"
    using handler_two [OF ga gb] by (simp add: pa pb)
  have one: "handler (browser 0) [connectionsA] =
      dispatch (browser 0) (setWarnings [] emptyPayload) a Connections
        (parseCSV (pending_content a))"
    using handler_one [OF ga] by (simp add: pa)
  have nb: "(case findFirstNameRow (parseCSV (pending_content b)) of
        None \<Rightarrow> []
      | Some i \<Rightarrow>
          map (\<lambda>row.
                 let trimmed =
                       trim (getValueByAliases row
                               (map normalizeText (parseCSV (pending_content b) ! i))
                               (lits [''First Name''])
                             @ js '' ''
                             @ getValueByAliases row
                                 (map normalizeText (parseCSV (pending_content b) ! i))
                                 (lits [''Last Name'']))
                 in if trimmed \<noteq> [] then trimmed else js ''Unknown'')
            (filter nonEmptyRow (drop (i + 1) (parseCSV (pending_content b)))))
       = [js ''Jane Smith'', js ''Bob Stone'']"
    unfolding b_def by code_simp
  have na: "(case findFirstNameRow (parseCSV (pending_content a)) of
        None \<Rightarrow> []
      | Some i \<Rightarrow>
          map (\<lambda>row.
                 let trimmed =
                       trim (getValueByAliases row
                               (map normalizeText (parseCSV (pending_content a) ! i))
                               (lits [''First Name''])
                             @ js '' ''
                             @ getValueByAliases row
                                 (map normalizeText (parseCSV (pending_content a) ! i))
                                 (lits [''Last Name'']))
                 in if trimmed \<noteq> [] then trimmed else js ''Unknown'')
            (filter nonEmptyRow (drop (i + 1) (parseCSV (pending_content a)))))
       = [js ''John Doe'']"
    unfolding a_def by code_simp
  have k1: "map contact_name (contacts (handler (browser 0) [connectionsA, connectionsB]))
     = [js ''Jane Smith'', js ''Bob Stone'']"
    unfolding two dispatch_Connections processConnections_names by (rule nb)
  have la: "length (parseCSV (pending_content a)) = 2"
    and lb: "length (parseCSV (pending_content b)) = 3"
    unfolding a_def b_def by code_simp+
  have "setProperty (label Connections) 3
          (setProperty (label Connections) 2 (rows (summary (setWarnings [] emptyPayload))))
        = [(js ''Connections'', 3)]"
    by code_simp
  then have k2: "rows (summary (handler (browser 0) [connectionsA, connectionsB]))
     = [(js ''Connections'', 3)]"
    unfolding two dispatch_rows la lb .
  have "(filesProcessed (summary (setWarnings [] emptyPayload))
          @ [label Connections @ js '' ('' @ pending_originalName a @ js '')''])
          @ [label Connections @ js '' ('' @ pending_originalName b @ js '')'']
        = [js ''Connections (Connections.csv)'', js ''Connections (Connections (1).csv)'']"
    unfolding a_def b_def by code_simp
  then have k3: "filesProcessed (summary (handler (browser 0) [connectionsA, connectionsB]))
     = [js ''Connections (Connections.csv)'', js ''Connections (Connections (1).csv)'']"
    unfolding two dispatch_filesProcessed .
  have k4: "map contact_name (contacts (handler (browser 0) [connectionsA])) = [js ''John Doe'']"
    unfolding one dispatch_Connections processConnections_names by (rule na)
  from k1 k2 k3 k4 show ?thesis by blast
qed

end
